theory Spec2Isabelle
  imports Main "HOL-Library.Word" "HOL-Library.Log_Nat"
begin

unbundle bit_operations_syntax

section \<open>Bytes, buffers and errors\<close>

text \<open>
  A Node \<open>Buffer\<close> is a fixed-length array of bytes. \<open>Buffer.allocUnsafe n\<close> returns
  \<open>n\<close> bytes of whatever the memory held before; the parameter \<open>junk\<close> stands for that
  prior content, so that nothing proved below can depend on it by accident.
\<close>

type_synonym byte = "8 word"
type_synonym Buffer = "byte list"

datatype HciParserError = InvalidPayloadSize | Busy | Timeout

text \<open>
  Everything the code throws or rejects with: the \<open>RangeError\<close> of the Buffer write
  methods, the parser errors of \<open>makeParserError\<close> / \<open>makeError\<close>, and the controller
  error built from a status code.
\<close>

datatype error = RangeError | ParserError HciParserError | HciError int

definition allocUnsafe :: "(nat \<Rightarrow> byte) \<Rightarrow> nat \<Rightarrow> Buffer" where
  "allocUnsafe junk n = map junk [0..<n]"

text \<open>The \<open>n\<close> low bytes of \<open>v\<close>, least significant first.\<close>

definition le_bytes :: "nat \<Rightarrow> int \<Rightarrow> byte list" where
  "le_bytes n v = map (\<lambda>i. word_of_int (v div 256 ^ i)) [0..<n]"

text \<open>Overwriting \<open>buf\<close> from offset \<open>off\<close> with the bytes \<open>bs\<close> (which fit).\<close>

definition store :: "Buffer \<Rightarrow> nat \<Rightarrow> byte list \<Rightarrow> Buffer" where
  "store buf off bs = take off buf @ bs @ drop (off + length bs) buf"

text \<open>
  \<open>buf.writeUIntLE(value, offset, byteLength)\<close>: Node throws a \<open>RangeError\<close> when the
  value is outside \<open>0 .. 2^(8*byteLength) - 1\<close> or the bytes do not fit at the offset;
  otherwise it writes the bytes and returns the offset after them. The pair is the buffer
  and the running offset \<open>o\<close> of the source.
\<close>

definition writeUIntLE :: "int \<Rightarrow> nat \<Rightarrow> Buffer \<times> nat \<Rightarrow> error + Buffer \<times> nat" where
  "writeUIntLE v byteLength s =
     (case s of (buf, off) \<Rightarrow>
        if off + byteLength \<le> length buf \<and> 0 \<le> v \<and> v < 2 ^ (8 * byteLength)
        then Inr (store buf off (le_bytes byteLength v), off + byteLength)
        else Inl RangeError)"

text \<open>A sequence of writes \<open>o = buf.write...(v, o, n); ...\<close>; the first throw ends it.\<close>

fun run_writes ::
  "(Buffer \<times> nat \<Rightarrow> error + Buffer \<times> nat) list \<Rightarrow> Buffer \<times> nat \<Rightarrow> error + Buffer \<times> nat"
where
  "run_writes [] s = Inr s"
| "run_writes (w # ws) s = (case w s of Inl e \<Rightarrow> Inl e | Inr s' \<Rightarrow> run_writes ws s')"

text \<open>
  \<open>src.copy(target, targetStart)\<close>: copies as many bytes of \<open>src\<close> as fit into
  \<open>target\<close> from \<open>targetStart\<close>.
\<close>

definition copy :: "Buffer \<Rightarrow> Buffer \<Rightarrow> nat \<Rightarrow> Buffer" where
  "copy src target targetStart =
     (if targetStart \<le> length target
      then store target targetStart (take (length target - targetStart) src)
      else target)"

section \<open>Opcodes\<close>

text \<open>
  JavaScript's bitwise operators convert their operands to 32-bit integers and return a
  signed 32-bit integer; a shift count is taken modulo 32. The operands here are
  integer-valued numbers.
\<close>

definition ToInt32 :: "int \<Rightarrow> 32 word" where
  "ToInt32 x = word_of_int x"

definition js_shl :: "int \<Rightarrow> int \<Rightarrow> int" where
  "js_shl a b = sint (push_bit (nat (b mod 32)) (ToInt32 a))"

definition js_sar :: "int \<Rightarrow> int \<Rightarrow> int" where
  "js_sar a b = sint (signed_drop_bit (nat (b mod 32)) (ToInt32 a))"

definition js_or :: "int \<Rightarrow> int \<Rightarrow> int" where
  "js_or a b = sint (ToInt32 a OR ToInt32 b)"

definition js_and :: "int \<Rightarrow> int \<Rightarrow> int" where
  "js_and a b = sint (ToInt32 a AND ToInt32 b)"

record OgfOcf =
  ogf :: int
  ocf :: int

text \<open>
  \<open>HciOpcode.build\<close>: \<open>opcode.ogf << 10 | opcode.ocf\<close>. The class is declared twice, in
  \<open>HciCmd.ts\<close> and beside the older \<open>Hci\<close> class, with the same text.
\<close>

definition build :: "OgfOcf \<Rightarrow> int" where
  "build opc = js_or (js_shl (ogf opc) 10) (ocf opc)"

text \<open>\<open>HciOpcode.expand\<close>: \<open>opcode >> 10\<close> and \<open>opcode & 1023\<close>.\<close>

definition expand :: "int \<Rightarrow> OgfOcf" where
  "expand opc = \<lparr> ogf = js_sar opc 10, ocf = js_and opc 1023 \<rparr>"

text \<open>
  The construction as the specification words it, \<open>(ogf << 10) | (ocf & 0x3FF)\<close>, with
  the same 32-bit operators.
\<close>

definition build_spec :: "OgfOcf \<Rightarrow> int" where
  "build_spec opc = js_or (js_shl (ogf opc) 10) (js_and (ocf opc) 0x3FF)"

section \<open>Command packets\<close>

record Command =
  opcode :: int
  connHandle :: "int option"
  payload :: "Buffer option"

text \<open>\<open>HciCmd.buildCommand\<close>.\<close>

definition buildCommand :: "(nat \<Rightarrow> byte) \<Rightarrow> Command \<Rightarrow> error + Buffer" where
  "buildCommand junk cmd =
     (let payloadLength = (case payload cmd of None \<Rightarrow> 0 | Some p \<Rightarrow> length p);
          buffer = allocUnsafe junk (3 + payloadLength)
      in case run_writes [writeUIntLE (opcode cmd) 2,
                          writeUIntLE (int payloadLength) 1] (buffer, 0) of
           Inl e \<Rightarrow> Inl e
         | Inr (buffer', off) \<Rightarrow>
             (case payload cmd of
                Some p \<Rightarrow> if payloadLength > 0 then Inr (copy p buffer' 3) else Inr buffer'
              | None \<Rightarrow> Inr buffer'))"

section \<open>The command dispatcher \<open>HciCmd\<close>\<close>

text \<open>
  \<open>HciCmdResult\<close>: what \<open>onCommandComplete\<close> and \<open>onCommandStatus\<close> hand to
  \<open>onCmdResult\<close>. A command-status result carries no return parameters. The field
  \<open>evt_opcode\<close> is the source's \<open>opcode\<close> (the name is taken by \<open>Command\<close>).
\<close>

record HciCmdResult =
  numHciPackets :: int
  evt_opcode :: int
  status :: int
  returnParameters :: "Buffer option"

datatype HciPacketType = HciCommand | HciAclData | HciEvent

text \<open>How a promise returned by \<open>sendWaitResult\<close> ends.\<close>

datatype outcome = Resolved HciCmdResult | Rejected error

text \<open>
  Modelled from the spec: \<open>HciError.ts\<close> is not among the sources. \<open>HciErrorCode.Success\<close>
  is the status \<open>0x00\<close>, \<open>HciErrorCode.InvalidCommandParameter\<close> is \<open>0x12\<close>,
  \<open>makeHciError\<close> builds the controller error whose code is the status it is given, and
  \<open>makeParserError\<close> the parser error of the given kind.
\<close>

definition Success :: int where
  "Success = 0"

definition InvalidCommandParameter :: int where
  "InvalidCommandParameter = 0x12"

definition makeHciError :: "int \<Rightarrow> error" where
  "makeHciError code = HciError code"

definition makeParserError :: "HciParserError \<Rightarrow> error" where
  "makeParserError kind = ParserError kind"

text \<open>\<open>buf.readUInt16LE(offset)\<close>: throws when two bytes are not there.\<close>

definition readUInt16LE :: "Buffer \<Rightarrow> nat \<Rightarrow> error + int" where
  "readUInt16LE buf off =
     (if off + 2 \<le> length buf
      then Inr (uint (buf ! off) + 256 * uint (buf ! (off + 1)))
      else Inl RangeError)"

text \<open>
  The state a run of \<open>HciCmd\<close> touches. \<open>onResult\<close> is the field of the class: the
  installed closure is determined by the command and the promise it captured, a promise
  being named by its creation index. \<open>timers\<close> are the armed timeouts (one per promise,
  under the promise's index), \<open>promises\<close> the settled promises, \<open>created\<close> the number of
  calls of \<open>sendWaitResult\<close> so far and \<open>sent\<close> the calls of the \<open>send\<close> function
  given to the constructor, oldest first.
\<close>

record HciCmd =
  onResult :: "(Command \<times> nat) option"
  timers :: "nat set"
  promises :: "nat \<Rightarrow> outcome option"
  created :: nat
  sent :: "(HciPacketType \<times> Buffer) list"

definition init :: HciCmd where
  "init = \<lparr> onResult = None, timers = {}, promises = (\<lambda>_. None), created = 0, sent = [] \<rparr>"

text \<open>\<open>resolve\<close> and \<open>reject\<close> settle a promise once; later calls change nothing.\<close>

definition settle :: "nat \<Rightarrow> outcome \<Rightarrow> HciCmd \<Rightarrow> HciCmd" where
  "settle p r st =
     (if promises st p = None then st\<lparr> promises := (promises st)(p \<mapsto> r) \<rparr> else st)"

text \<open>
  The closure \<open>complete\<close> of the promise \<open>p\<close>: \<open>clearTimeout(timeoutId)\<close>,
  \<open>this.onResult = null\<close>, then reject or resolve.
\<close>

definition complete :: "nat \<Rightarrow> outcome \<Rightarrow> HciCmd \<Rightarrow> HciCmd" where
  "complete p r st = settle p r (st\<lparr> timers := timers st - {p}, onResult := None \<rparr>)"

text \<open>The status test shared by both branches of the installed closure.\<close>

definition classify :: "nat \<Rightarrow> HciCmdResult \<Rightarrow> HciCmd \<Rightarrow> HciCmd" where
  "classify p evt st =
     (if status evt \<noteq> Success
      then complete p (Rejected (makeHciError (status evt))) st
      else complete p (Resolved evt) st)"

text \<open>The closure stored in \<open>this.onResult\<close> by \<open>sendWaitResult cmd\<close> for promise \<open>p\<close>.\<close>

definition onResult_closure :: "Command \<Rightarrow> nat \<Rightarrow> HciCmdResult \<Rightarrow> HciCmd \<Rightarrow> HciCmd" where
  "onResult_closure cmd p evt st =
     (if opcode cmd \<noteq> evt_opcode evt then st
      else case connHandle cmd of
        None \<Rightarrow> classify p evt st
      | Some h \<Rightarrow>
          (case returnParameters evt of
             None \<Rightarrow> st
           | Some rp \<Rightarrow>
               if length rp < 2 then st
               else (case readUInt16LE rp 0 of
                       Inl e \<Rightarrow> st
                     | Inr handle \<Rightarrow> if h \<noteq> handle then st else classify p evt st)))"

text \<open>
  \<open>sendWaitResult\<close>. The executor of the promise runs at once; an exception thrown in
  it (by \<open>buildCommand\<close>) rejects the promise, the closure and the timer staying in place.
  The \<open>send\<close> function is the caller's; it is taken to return without calling back
  into the object.
\<close>

definition sendWaitResult :: "(nat \<Rightarrow> byte) \<Rightarrow> Command \<Rightarrow> HciCmd \<Rightarrow> HciCmd" where
  "sendWaitResult junk cmd st0 =
     (let p = created st0;
          st = st0\<lparr> created := p + 1 \<rparr>
      in if onResult st \<noteq> None then settle p (Rejected (makeParserError Busy)) st
         else let st1 = st\<lparr> timers := insert p (timers st) \<rparr>;
                  st2 = st1\<lparr> onResult := Some (cmd, p) \<rparr>
              in case buildCommand junk cmd of
                   Inl e \<Rightarrow> settle p (Rejected e) st2
                 | Inr packet \<Rightarrow> st2\<lparr> sent := sent st2 @ [(HciCommand, packet)] \<rparr>)"

text \<open>\<open>onCmdResult\<close>.\<close>

definition onCmdResult :: "HciCmdResult \<Rightarrow> HciCmd \<Rightarrow> HciCmd" where
  "onCmdResult result st =
     (case onResult st of
        None \<Rightarrow> st
      | Some (cmd, p) \<Rightarrow> onResult_closure cmd p result st)"

text \<open>The timeout armed for promise \<open>p\<close> expires, if it is still armed.\<close>

definition timer_fires :: "nat \<Rightarrow> HciCmd \<Rightarrow> HciCmd" where
  "timer_fires p st =
     (if p \<in> timers st then complete p (Rejected (makeParserError Timeout)) st else st)"

text \<open>
  What can happen to an \<open>HciCmd\<close>, in any order: a caller submits a command, the
  transport delivers a result, a timeout expires.
\<close>

datatype input = Submit Command | Deliver HciCmdResult | Expire nat

fun step :: "(nat \<Rightarrow> byte) \<Rightarrow> HciCmd \<Rightarrow> input \<Rightarrow> HciCmd" where
  "step junk st (Submit cmd) = sendWaitResult junk cmd st"
| "step junk st (Deliver result) = onCmdResult result st"
| "step junk st (Expire p) = timer_fires p st"

definition run :: "(nat \<Rightarrow> byte) \<Rightarrow> input list \<Rightarrow> HciCmd" where
  "run junk inputs = foldl (step junk) init inputs"

text \<open>The calls that have neither resolved nor rejected yet.\<close>

definition outstanding :: "HciCmd \<Rightarrow> nat set" where
  "outstanding st = {p \<in> {..<created st}. promises st p = None}"

text \<open>The promise whose closure occupies the slot, if any.\<close>

definition pending_ids :: "HciCmd \<Rightarrow> nat set" where
  "pending_ids st = (case onResult st of None \<Rightarrow> {} | Some (cmd, p) \<Rightarrow> {p})"

text \<open>
  The invariant of every run: the only armed timer and the only unsettled promise belong
  to the command in the slot, and promises not yet created are not settled.
\<close>

definition slot_inv :: "HciCmd \<Rightarrow> bool" where
  "slot_inv st \<longleftrightarrow>
     timers st = pending_ids st \<and> pending_ids st \<subseteq> {..<created st} \<and>
     outstanding st \<subseteq> pending_ids st \<and> (\<forall>q\<ge>created st. promises st q = None)"

text \<open>
  A matching completion, in the specification's words: the result carries the pending
  command's opcode and, where the command registered a connection handle, return
  parameters that begin with that handle, little-endian.
\<close>

definition matching :: "Command \<Rightarrow> HciCmdResult \<Rightarrow> bool" where
  "matching cmd evt \<longleftrightarrow>
     opcode cmd = evt_opcode evt \<and>
     (case connHandle cmd of
        None \<Rightarrow> True
      | Some h \<Rightarrow>
          (case returnParameters evt of
             None \<Rightarrow> False
           | Some rp \<Rightarrow> 2 \<le> length rp \<and> readUInt16LE rp 0 = Inr h))"


section \<open>Numbers and time units\<close>

text \<open>
  A JavaScript number is an IEEE 754 binary64 value. A finite one is a rational, and an
  arithmetic operation returns the exact result rounded to the nearest value with a
  53-bit significand, ties to the even significand. \<open>fl\<close> is that rounding, with the
  exponent unbounded: overflow to infinity and the subnormal range do not arise for the
  millisecond quantities converted here. \<open>binade x\<close> is the exponent of \<open>x\<close>, the
  integer \<open>e\<close> with \<open>2^e \<le> |x| < 2^(e+1)\<close>.
\<close>

definition binade :: "rat \<Rightarrow> int" where
  "binade x = (case quotient_of \<bar>x\<bar> of (p, q) \<Rightarrow>
                 let e = bitlen p - bitlen q in if 2 powi e \<le> \<bar>x\<bar> then e else e - 1)"

definition rne :: "rat \<Rightarrow> int" where
  "rne x = (let f = \<lfloor>x\<rfloor>; r = x - of_int f
            in if r < 1 / 2 then f else if 1 / 2 < r then f + 1 else if even f then f else f + 1)"

definition fl :: "rat \<Rightarrow> rat" where
  "fl x = (if x = 0 then 0
           else let ulp = 2 powi (binade x - 52) in of_int (rne (x / ulp)) * ulp)"

text \<open>\<open>a / b\<close> for \<open>b \<noteq> 0\<close>, and \<open>a * b\<close>.\<close>

definition js_div :: "rat \<Rightarrow> rat \<Rightarrow> rat" where
  "js_div a b = fl (a / b)"

definition js_mul :: "rat \<Rightarrow> rat \<Rightarrow> rat" where
  "js_mul a b = fl (a * b)"

text \<open>
  \<open>Math.round\<close>: the integer closest to the argument, the one towards plus infinity
  when two are equally close.
\<close>

definition Math_round :: "rat \<Rightarrow> int" where
  "Math_round x = \<lfloor>x + 1 / 2\<rfloor>"

text \<open>
  \<open>Hci.msToHciValue\<close> and \<open>Hci.hciValueToMs\<close>. A literal such as \<open>0.625\<close> denotes the
  double nearest to it.
\<close>

definition msToHciValue :: "rat \<Rightarrow> int" where
  "msToHciValue ms = Math_round (js_div ms (fl 0.625))"

definition hciValueToMs :: "int \<Rightarrow> rat" where
  "hciValueToMs val = js_mul (of_int val) (fl 0.625)"

section \<open>LE enumerations\<close>

datatype LeAdvertisingType =
  Undirected | DirectedHighDutyCycle | Scannable | NonConnectable | DirectedLowDutyCycle

fun LeAdvertisingType_value :: "LeAdvertisingType \<Rightarrow> int" where
  "LeAdvertisingType_value Undirected = 0"
| "LeAdvertisingType_value DirectedHighDutyCycle = 1"
| "LeAdvertisingType_value Scannable = 2"
| "LeAdvertisingType_value NonConnectable = 3"
| "LeAdvertisingType_value DirectedLowDutyCycle = 4"

datatype LeAdvertisingChannelMap = Channel37 | Channel38 | Channel39

fun LeAdvertisingChannelMap_value :: "LeAdvertisingChannelMap \<Rightarrow> int" where
  "LeAdvertisingChannelMap_value Channel37 = 0"
| "LeAdvertisingChannelMap_value Channel38 = 1"
| "LeAdvertisingChannelMap_value Channel39 = 2"

datatype LeOwnAddressType =
  PublicDeviceAddress | RandomDeviceAddress
  | UsePublicAddressIfNoMatching | UseRandomAddressIfNoMatching

fun LeOwnAddressType_value :: "LeOwnAddressType \<Rightarrow> int" where
  "LeOwnAddressType_value PublicDeviceAddress = 0"
| "LeOwnAddressType_value RandomDeviceAddress = 1"
| "LeOwnAddressType_value UsePublicAddressIfNoMatching = 2"
| "LeOwnAddressType_value UseRandomAddressIfNoMatching = 3"

text \<open>
  \<open>LePeerAddressType\<close> has the members \<open>PublicDeviceAddress\<close> and
  \<open>RandomDeviceAddress\<close> too; they are prefixed here.
\<close>

datatype LePeerAddressType = PeerPublicDeviceAddress | PeerRandomDeviceAddress

fun LePeerAddressType_value :: "LePeerAddressType \<Rightarrow> int" where
  "LePeerAddressType_value PeerPublicDeviceAddress = 0"
| "LePeerAddressType_value PeerRandomDeviceAddress = 1"

datatype LeAdvertisingFilterPolicy =
  Any | WhiteListConnect | WhiteListScan | WhiteListScanConnect

fun LeAdvertisingFilterPolicy_value :: "LeAdvertisingFilterPolicy \<Rightarrow> int" where
  "LeAdvertisingFilterPolicy_value Any = 0"
| "LeAdvertisingFilterPolicy_value WhiteListConnect = 1"
| "LeAdvertisingFilterPolicy_value WhiteListScan = 2"
| "LeAdvertisingFilterPolicy_value WhiteListScanConnect = 3"

datatype LeAdvertisingDataOperation =
  FragmentIntermediate | FragmentFirst | FragmentLast | Complete | Unchanged

fun LeAdvertisingDataOperation_value :: "LeAdvertisingDataOperation \<Rightarrow> int" where
  "LeAdvertisingDataOperation_value FragmentIntermediate = 0x00"
| "LeAdvertisingDataOperation_value FragmentFirst = 0x01"
| "LeAdvertisingDataOperation_value FragmentLast = 0x02"
| "LeAdvertisingDataOperation_value Complete = 0x03"
| "LeAdvertisingDataOperation_value Unchanged = 0x04"

text \<open>\<open>LeScanResponseDataOperation\<close> repeats three of these member names; prefixed.\<close>

datatype LeScanResponseDataOperation =
  ScanRspFragmentIntermediate | ScanRspFragmentFirst | ScanRspFragmentLast

fun LeScanResponseDataOperation_value :: "LeScanResponseDataOperation \<Rightarrow> int" where
  "LeScanResponseDataOperation_value ScanRspFragmentIntermediate = 0x00"
| "LeScanResponseDataOperation_value ScanRspFragmentFirst = 0x01"
| "LeScanResponseDataOperation_value ScanRspFragmentLast = 0x02"

datatype LeScanningFilterPolicy =
  All | FromWhiteList | AllExceptDirectedAdvertisingPackets
  | AllExceptPacketFromWhiteListAndDirectedAdvertising

fun LeScanningFilterPolicy_value :: "LeScanningFilterPolicy \<Rightarrow> int" where
  "LeScanningFilterPolicy_value All = 0x00"
| "LeScanningFilterPolicy_value FromWhiteList = 0x01"
| "LeScanningFilterPolicy_value AllExceptDirectedAdvertisingPackets = 0x02"
| "LeScanningFilterPolicy_value AllExceptPacketFromWhiteListAndDirectedAdvertising = 0x03"

text \<open>\<open>LeScanningPhy\<close>: the bit positions of the scanning-PHY mask.\<close>

definition LeScanningPhy_Phy1M :: int where
  "LeScanningPhy_Phy1M = 0x00"

definition LeScanningPhy_PhyCoded :: int where
  "LeScanningPhy_PhyCoded = 0x02"

datatype LeScanType = Passive | Active

fun LeScanType_value :: "LeScanType \<Rightarrow> int" where
  "LeScanType_value Passive = 0x00"
| "LeScanType_value Active = 0x01"

datatype LeScanFilterDuplicates = Disabled | Enabled | Reset

fun LeScanFilterDuplicates_value :: "LeScanFilterDuplicates \<Rightarrow> int" where
  "LeScanFilterDuplicates_value Disabled = 0x00"
| "LeScanFilterDuplicates_value Enabled = 0x01"
| "LeScanFilterDuplicates_value Reset = 0x02"

section \<open>Command payloads of \<open>Hci\<close>\<close>

text \<open>
  Each function below is the part of the \<open>Hci\<close> method of the same name that builds
  the payload; its result is what the method hands to \<open>sendLeCommand\<close>, or what it
  throws before. The arguments are the fields of the method's \<open>params\<close> object.
\<close>

text \<open>\<open>Hci.buildBitfield\<close>.\<close>

definition buildBitfield :: "int list \<Rightarrow> int" where
  "buildBitfield bits = foldl (\<lambda>bitfield bit. js_or bitfield (js_shl 1 bit)) 0 bits"

text \<open>A write under \<open>if (x) { ... }\<close> for an optional object \<open>x\<close>.\<close>

definition if_present ::
  "'a option \<Rightarrow> ('a \<Rightarrow> Buffer \<times> nat \<Rightarrow> error + Buffer \<times> nat) \<Rightarrow>
     Buffer \<times> nat \<Rightarrow> error + Buffer \<times> nat"
where
  "if_present x w s = (case x of None \<Rightarrow> Inr s | Some v \<Rightarrow> w v s)"

definition leSetAdvertisingParameters ::
  "(nat \<Rightarrow> byte) \<Rightarrow> rat \<Rightarrow> rat \<Rightarrow> LeAdvertisingType \<Rightarrow> LeOwnAddressType \<Rightarrow>
     LePeerAddressType \<Rightarrow> int \<Rightarrow> LeAdvertisingChannelMap list \<Rightarrow> LeAdvertisingFilterPolicy \<Rightarrow>
     error + Buffer"
where
  "leSetAdvertisingParameters junk advertisingIntervalMinMs advertisingIntervalMaxMs
       advertisingType ownAddressType peerAddressType peerAddress advertisingChannelMap
       advertisingFilterPolicy =
     (let advertisingIntervalMin = Math_round (js_div advertisingIntervalMinMs (fl 0.625));
          advertisingIntervalMax = Math_round (js_div advertisingIntervalMaxMs (fl 0.625));
          channelMap = buildBitfield (map LeAdvertisingChannelMap_value advertisingChannelMap);
          payload = allocUnsafe junk 15
      in case run_writes
                [writeUIntLE advertisingIntervalMin 2,
                 writeUIntLE advertisingIntervalMax 2,
                 writeUIntLE (LeAdvertisingType_value advertisingType) 1,
                 writeUIntLE (LeOwnAddressType_value ownAddressType) 1,
                 writeUIntLE (LePeerAddressType_value peerAddressType) 1,
                 writeUIntLE peerAddress 6,
                 writeUIntLE channelMap 1,
                 writeUIntLE (LeAdvertisingFilterPolicy_value advertisingFilterPolicy) 1]
                (payload, 0) of
           Inl e \<Rightarrow> Inl e
         | Inr (payload', off) \<Rightarrow> Inr payload')"

definition leSetExtendedAdvertisingData ::
  "(nat \<Rightarrow> byte) \<Rightarrow> int \<Rightarrow> LeAdvertisingDataOperation \<Rightarrow> bool \<Rightarrow> Buffer \<Rightarrow> error + Buffer"
where
  "leSetExtendedAdvertisingData junk advertisingHandle operation fragment data =
     (let payload = allocUnsafe junk (4 + length data)
      in case run_writes
                [writeUIntLE advertisingHandle 1,
                 writeUIntLE (LeAdvertisingDataOperation_value operation) 1,
                 writeUIntLE (if fragment then 0 else 1) 1,
                 writeUIntLE (int (length data)) 1]
                (payload, 0) of
           Inl e \<Rightarrow> Inl e
         | Inr (payload', off) \<Rightarrow> Inr (copy data payload' off))"

definition leSetExtendedScanResponseData ::
  "(nat \<Rightarrow> byte) \<Rightarrow> int \<Rightarrow> LeScanResponseDataOperation \<Rightarrow> bool \<Rightarrow> Buffer \<Rightarrow> error + Buffer"
where
  "leSetExtendedScanResponseData junk advertisingHandle operation fragment data =
     (let payload = allocUnsafe junk (4 + length data)
      in case run_writes
                [writeUIntLE advertisingHandle 1,
                 writeUIntLE (LeScanResponseDataOperation_value operation) 1,
                 writeUIntLE (if fragment then 0 else 1) 1,
                 writeUIntLE (int (length data)) 1]
                (payload, 0) of
           Inl e \<Rightarrow> Inl e
         | Inr (payload', off) \<Rightarrow> Inr (copy data payload' off))"

text \<open>The per-PHY object of \<open>leSetExtendedScanParameters\<close> and the local \<open>phys\<close>.\<close>

record ScanPhy =
  type :: LeScanType
  intervalMs :: rat
  windowMs :: rat

record Phys =
  count :: nat
  bitmask :: int

definition leSetExtendedScanParameters ::
  "(nat \<Rightarrow> byte) \<Rightarrow> LeOwnAddressType \<Rightarrow> LeScanningFilterPolicy \<Rightarrow>
     ScanPhy option \<Rightarrow> ScanPhy option \<Rightarrow> error + Buffer"
where
  "leSetExtendedScanParameters junk ownAddressType scanningFilterPolicy Phy1M PhyCoded =
     (let phys0 = \<lparr> count = 0, bitmask = 0 \<rparr>;
          phys1 = (case Phy1M of
                     None \<Rightarrow> phys0
                   | Some _ \<Rightarrow> \<lparr> count = count phys0 + 1,
                                bitmask = js_or (bitmask phys0) (js_shl 1 LeScanningPhy_Phy1M) \<rparr>);
          phys = (case PhyCoded of
                    None \<Rightarrow> phys1
                  | Some _ \<Rightarrow> \<lparr> count = count phys1 + 1,
                               bitmask = js_or (bitmask phys1) (js_shl 1 LeScanningPhy_PhyCoded) \<rparr>)
      in if count phys = 0 then Inl (makeHciError InvalidCommandParameter)
         else
           let payload = allocUnsafe junk (3 + count phys * (1 + 2 + 2))
           in case run_writes
                     [writeUIntLE (LeOwnAddressType_value ownAddressType) 1,
                      writeUIntLE (LeScanningFilterPolicy_value scanningFilterPolicy) 1,
                      writeUIntLE (bitmask phys) 1,
                      if_present Phy1M (\<lambda>p. writeUIntLE (LeScanType_value (type p)) 1),
                      if_present PhyCoded (\<lambda>p. writeUIntLE (LeScanType_value (type p)) 1),
                      if_present Phy1M (\<lambda>p. writeUIntLE (msToHciValue (intervalMs p)) 2),
                      if_present PhyCoded (\<lambda>p. writeUIntLE (msToHciValue (intervalMs p)) 2),
                      if_present Phy1M (\<lambda>p. writeUIntLE (msToHciValue (windowMs p)) 2),
                      if_present PhyCoded (\<lambda>p. writeUIntLE (msToHciValue (windowMs p)) 2)]
                     (payload, 0) of
                Inl e \<Rightarrow> Inl e
              | Inr (payload', off) \<Rightarrow> Inr payload')"

definition leSetExtendedScanEnable ::
  "(nat \<Rightarrow> byte) \<Rightarrow> bool \<Rightarrow> LeScanFilterDuplicates \<Rightarrow> rat option \<Rightarrow> rat option \<Rightarrow>
     error + Buffer"
where
  "leSetExtendedScanEnable junk enable filterDuplicates durationMs periodSec =
     (let duration = Math_round (js_div (case durationMs of None \<Rightarrow> 0 | Some d \<Rightarrow> d) 10);
          period = Math_round (js_div (case periodSec of None \<Rightarrow> 0 | Some p \<Rightarrow> p) (fl 1.28));
          payload = allocUnsafe junk (1 + 1 + 2 + 2)
      in case run_writes
                [writeUIntLE (if enable then 1 else 0) 1,
                 writeUIntLE (LeScanFilterDuplicates_value filterDuplicates) 1,
                 writeUIntLE duration 2,
                 writeUIntLE period 2]
                (payload, 0) of
           Inl e \<Rightarrow> Inl e
         | Inr (payload', off) \<Rightarrow> Inr payload')"

text \<open>
  The layout of the \<open>LeSetExtendedScanParameters\<close> payload in the specification's
  words: own address type, filter policy and PHY mask, then for the selected PHYs, 1M
  before Coded, all scan types, then all intervals, then all windows.
\<close>

definition selected_phys :: "ScanPhy option \<Rightarrow> ScanPhy option \<Rightarrow> ScanPhy list" where
  "selected_phys Phy1M PhyCoded =
     (case Phy1M of None \<Rightarrow> [] | Some p \<Rightarrow> [p]) @ (case PhyCoded of None \<Rightarrow> [] | Some p \<Rightarrow> [p])"

definition phy_mask :: "ScanPhy option \<Rightarrow> ScanPhy option \<Rightarrow> int" where
  "phy_mask Phy1M PhyCoded =
     (case Phy1M of None \<Rightarrow> 0 | Some _ \<Rightarrow> 1) + (case PhyCoded of None \<Rightarrow> 0 | Some _ \<Rightarrow> 4)"

definition grouped_layout ::
  "LeOwnAddressType \<Rightarrow> LeScanningFilterPolicy \<Rightarrow> ScanPhy option \<Rightarrow> ScanPhy option \<Rightarrow> Buffer"
where
  "grouped_layout ownAddressType scanningFilterPolicy Phy1M PhyCoded =
     (let phys = selected_phys Phy1M PhyCoded
      in [word_of_int (LeOwnAddressType_value ownAddressType),
          word_of_int (LeScanningFilterPolicy_value scanningFilterPolicy),
          word_of_int (phy_mask Phy1M PhyCoded)]
         @ map (\<lambda>p. word_of_int (LeScanType_value (type p))) phys
         @ concat (map (\<lambda>p. le_bytes 2 (msToHciValue (intervalMs p))) phys)
         @ concat (map (\<lambda>p. le_bytes 2 (msToHciValue (windowMs p))) phys))"

text \<open>Whether the converted interval and window of a PHY fit their two-byte fields.\<close>

definition fits_u16 :: "ScanPhy \<Rightarrow> bool" where
  "fits_u16 p \<longleftrightarrow>
     0 \<le> msToHciValue (intervalMs p) \<and> msToHciValue (intervalMs p) \<le> 0xFFFF \<and>
     0 \<le> msToHciValue (windowMs p) \<and> msToHciValue (windowMs p) \<le> 0xFFFF"

section \<open>Buffer lemmas\<close>

lemma length_allocUnsafe [simp]: "length (allocUnsafe junk n) = n"
  by (simp add: allocUnsafe_def)

lemma length_le_bytes [simp]: "length (le_bytes n v) = n"
  by (simp add: le_bytes_def)

lemma le_bytes_1: "le_bytes (Suc 0) v = [word_of_int v]"
  by (simp add: le_bytes_def)

lemma le_bytes_2: "le_bytes 2 v = [word_of_int v, word_of_int (v div 256)]"
proof -
  have "[0..<2] = [0, Suc 0]"
    by (simp add: upt_rec)
  then show ?thesis
    by (simp add: le_bytes_def)
qed

lemma length_store [simp]:
  "off + length bs \<le> length buf \<Longrightarrow> length (store buf off bs) = length buf"
  by (simp add: store_def)



section \<open>Opcode construction\<close>

lemma ocf_low_bits:
  assumes "0 \<le> x" and "x < 1024"
  shows "(word_of_int x :: 32 word) AND 0x3FF = word_of_int x"
proof -
  have m: "(0x3FF :: 32 word) = mask 10"
    by (simp add: mask_eq_exp_minus_1)
  have "take_bit 10 x = x"
    using assms by (simp add: take_bit_int_eq_self)
  then have "take_bit 10 (word_of_int x :: 32 word) = word_of_int x"
    by (metis take_bit_of_int)
  then show ?thesis
    by (simp add: m take_bit_eq_mask [symmetric])
qed

text \<open>
  C2, as stated: \<open>build\<close> truncates the OCF to ten bits. It does not: an OCF of
  \<open>0x400\<close> under OGF 8 spills into the OGF bits.
\<close>

theorem build_no_truncation_counterexample:
  "build \<lparr> ogf = 8, ocf = 0x400 \<rparr> = 0x2400 \<and> build_spec \<lparr> ogf = 8, ocf = 0x400 \<rparr> = 0x2000
   \<and> build \<lparr> ogf = 8, ocf = 0x400 \<rparr> \<noteq> build_spec \<lparr> ogf = 8, ocf = 0x400 \<rparr>"
  by (simp add: build_def build_spec_def js_or_def js_shl_def js_and_def ToInt32_def)

text \<open>
  C2, amended: for every OGF and every OCF that already fits in ten bits
  (\<open>0 \<le> ocf \<le> 0x3FF\<close>), the opcode built by \<open>HciOpcode.build\<close> equals
  \<open>(ogf << 10) | (ocf & 0x3FF)\<close>.
\<close>

theorem build_matches_spec_in_range:
  "0 \<le> ocf opc \<Longrightarrow> ocf opc \<le> 0x3FF \<Longrightarrow> build opc = build_spec opc"
  by (simp add: build_def build_spec_def js_or_def js_shl_def js_and_def ToInt32_def ocf_low_bits)

theorem build_matches_spec_in_range_witness:
  "build \<lparr> ogf = 8, ocf = 0x41 \<rparr> = build_spec \<lparr> ogf = 8, ocf = 0x41 \<rparr>
   \<and> build_spec \<lparr> ogf = 8, ocf = 0x41 \<rparr> = 0x2041"
  using build_matches_spec_in_range [of "\<lparr> ogf = 8, ocf = 0x41 \<rparr>"]
  by (simp add: build_spec_def js_or_def js_shl_def js_and_def ToInt32_def)

section \<open>The dispatcher: invariant and closure\<close>

lemma settle_fields [simp]:
  "onResult (settle p r st) = onResult st"
  "timers (settle p r st) = timers st"
  "created (settle p r st) = created st"
  "sent (settle p r st) = sent st"
  by (simp_all add: settle_def)

lemma settle_promises:
  "promises (settle p r st) q = (if q = p \<and> promises st p = None then Some r else promises st q)"
  by (simp add: settle_def)

lemma complete_fields [simp]:
  "onResult (complete p r st) = None"
  "timers (complete p r st) = timers st - {p}"
  "created (complete p r st) = created st"
  "sent (complete p r st) = sent st"
  by (simp_all add: complete_def)

lemma complete_promises:
  "promises (complete p r st) q = (if q = p \<and> promises st p = None then Some r else promises st q)"
  by (simp add: complete_def settle_promises)

lemma classify_fields [simp]:
  "onResult (classify p evt st) = None"
  "timers (classify p evt st) = timers st - {p}"
  "created (classify p evt st) = created st"
  "sent (classify p evt st) = sent st"
  by (simp_all add: classify_def)

lemma classify_promises:
  "promises (classify p evt st) q =
     (if q = p \<and> promises st p = None
      then Some (if status evt = 0 then Resolved evt else Rejected (HciError (status evt)))
      else promises st q)"
  by (simp add: classify_def complete_promises Success_def makeHciError_def)

lemma closure_cases:
  "onResult_closure cmd p evt st = (if matching cmd evt then classify p evt st else st)"
  by (auto simp: onResult_closure_def matching_def readUInt16LE_def split: option.splits sum.splits)

lemma slot_inv_init: "slot_inv init"
  by (simp add: slot_inv_def init_def pending_ids_def outstanding_def)

lemma slot_inv_complete:
  assumes "slot_inv st" and "onResult st = Some (cmd, p)"
  shows "slot_inv (complete p r st)"
  using assms
  by (auto simp: slot_inv_def pending_ids_def outstanding_def complete_promises)

lemma slot_inv_sendWaitResult: "slot_inv st \<Longrightarrow> slot_inv (sendWaitResult junk cmd st)"
  by (auto simp: slot_inv_def pending_ids_def outstanding_def sendWaitResult_def Let_def
      settle_promises less_Suc_eq split: option.splits sum.splits if_splits)

lemma slot_inv_onCmdResult: "slot_inv st \<Longrightarrow> slot_inv (onCmdResult evt st)"
  by (auto simp: onCmdResult_def closure_cases classify_def slot_inv_complete split: option.splits)

lemma slot_inv_timer_fires:
  assumes "slot_inv st"
  shows "slot_inv (timer_fires p st)"
proof (cases "p \<in> timers st")
  case True
  with assms have "p \<in> pending_ids st"
    by (simp add: slot_inv_def)
  then obtain cmd where "onResult st = Some (cmd, p)"
    by (auto simp: pending_ids_def split: option.splits)
  with assms True show ?thesis
    by (simp add: timer_fires_def slot_inv_complete)
next
  case False
  with assms show ?thesis
    by (simp add: timer_fires_def)
qed

lemma slot_inv_step: "slot_inv st \<Longrightarrow> slot_inv (step junk st i)"
  by (cases i) (simp_all add: slot_inv_sendWaitResult slot_inv_onCmdResult slot_inv_timer_fires)

lemma slot_inv_run: "slot_inv (run junk inputs)"
  unfolding run_def
  by (induction inputs rule: rev_induct) (simp_all add: slot_inv_init slot_inv_step)

lemma card_outstanding: "slot_inv st \<Longrightarrow> card (outstanding st) \<le> 1"
proof -
  assume "slot_inv st"
  then have sub: "outstanding st \<subseteq> pending_ids st"
    by (simp add: slot_inv_def)
  have "finite (pending_ids st)" and "card (pending_ids st) \<le> 1"
    by (auto simp: pending_ids_def split: option.splits)
  with sub show ?thesis
    by (meson card_mono le_trans)
qed

section \<open>Command packet layout\<close>

lemma uint16_bytes:
  assumes "0 \<le> v" and "v < 65536"
  shows "uint (word_of_int v :: byte) + 256 * uint (word_of_int (v div 256) :: byte) = v"
proof -
  have "v div 256 < 256"
    using assms by simp
  moreover have "0 \<le> v div 256"
    using assms by simp
  ultimately have "(v div 256) mod 256 = v div 256"
    by simp
  then show ?thesis
    by (simp add: uint_word_of_int take_bit_eq_mod)
qed

lemma uint8_byte:
  assumes "0 \<le> v" and "v < 256"
  shows "uint (word_of_int v :: byte) = v"
  using assms by (simp add: uint_word_of_int take_bit_eq_mod)

lemma uint8_nat: "n \<le> 255 \<Longrightarrow> uint (word_of_nat n :: byte) = int n"
  using uint8_byte [of "int n"] by simp

lemma buildCommand_ok:
  assumes "0 \<le> opcode cmd" and "opcode cmd < 65536"
    and "(case payload cmd of None \<Rightarrow> 0 | Some p \<Rightarrow> length p) \<le> 255"
  shows "buildCommand junk cmd =
           Inr ([word_of_int (opcode cmd), word_of_int (opcode cmd div 256),
                 word_of_int (int (case payload cmd of None \<Rightarrow> 0 | Some p \<Rightarrow> length p))]
                @ (case payload cmd of None \<Rightarrow> [] | Some p \<Rightarrow> p))"
  using assms
  by (simp add: buildCommand_def Let_def writeUIntLE_def le_bytes_1 le_bytes_2 store_def copy_def split: option.splits)

text \<open>
  C3: for a command with a 16-bit opcode and a payload of length \<open>L \<le> 255\<close> (none:
  \<open>L = 0\<close>), \<open>HciCmd.buildCommand\<close> returns a packet of exactly \<open>3 + L\<close> bytes:
  the opcode little-endian at offset 0, the length byte \<open>L\<close> at offset 2, the payload
  from offset 3; whatever the fresh buffer held before.
\<close>

theorem buildCommand_layout:
  assumes "0 \<le> opcode cmd" and "opcode cmd \<le> 0xFFFF"
    and "L = (case payload cmd of None \<Rightarrow> 0 | Some p \<Rightarrow> length p)" and "L \<le> 255"
  shows "\<exists>packet. buildCommand junk cmd = Inr packet \<and> length packet = 3 + L \<and>
           readUInt16LE packet 0 = Inr (opcode cmd) \<and> uint (packet ! 2) = int L \<and>
           drop 3 packet = (case payload cmd of None \<Rightarrow> [] | Some p \<Rightarrow> p)"
proof -
  let ?packet = "[word_of_int (opcode cmd), word_of_int (opcode cmd div 256), word_of_int (int L)]
                 @ (case payload cmd of None \<Rightarrow> [] | Some p \<Rightarrow> p)"
  have "buildCommand junk cmd = Inr ?packet"
    using assms buildCommand_ok [of cmd junk] by simp
  moreover have "length ?packet = 3 + L"
    using assms by (simp split: option.splits)
  moreover have "readUInt16LE ?packet 0 = Inr (opcode cmd)"
    using assms by (simp add: readUInt16LE_def uint16_bytes)
  moreover have "uint (?packet ! 2) = int L"
    using assms by (simp add: uint8_nat)
  moreover have "drop 3 ?packet = (case payload cmd of None \<Rightarrow> [] | Some p \<Rightarrow> p)"
    by simp
  ultimately show ?thesis
    by blast
qed

theorem buildCommand_layout_witness:
  "buildCommand (\<lambda>_. 0xAA) \<lparr> opcode = 0x2006, connHandle = None, payload = Some [1, 2] \<rparr>
     = Inr [0x06, 0x20, 0x02, 1, 2]
   \<and> buildCommand (\<lambda>_. 0xAA) \<lparr> opcode = 0x0C03, connHandle = None, payload = None \<rparr>
     = Inr [0x03, 0x0C, 0x00]"
  using buildCommand_layout [of "\<lparr> opcode = 0x2006, connHandle = None, payload = Some [1, 2] \<rparr>" 2 "\<lambda>_. 0xAA"]
    buildCommand_layout [of "\<lparr> opcode = 0x0C03, connHandle = None, payload = None \<rparr>" 0 "\<lambda>_. 0xAA"]
  by (simp add: buildCommand_def Let_def writeUIntLE_def le_bytes_1 le_bytes_2 store_def copy_def allocUnsafe_def)

section \<open>Dispatcher properties\<close>

lemma onCmdResult_pending:
  "onResult st = Some (cmd, p) \<Longrightarrow>
     onCmdResult evt st = (if matching cmd evt then classify p evt st else st)"
  by (simp add: onCmdResult_def closure_cases)

lemma busy_submit:
  assumes "onResult st = Some (cmd0, p0)"
  shows "sendWaitResult junk cmd st =
           settle (created st) (Rejected (ParserError Busy)) (st\<lparr> created := created st + 1 \<rparr>)"
  using assms by (simp add: sendWaitResult_def Let_def makeParserError_def)

lemma busy_effect:
  fixes junk cmd st
  defines "st' \<equiv> sendWaitResult junk cmd st"
  assumes inv: "slot_inv st" and slot: "onResult st = Some (cmd0, p0)"
  shows "promises st' (created st) = Some (Rejected (ParserError Busy)) \<and>
         sent st' = sent st \<and> onResult st' = Some (cmd0, p0) \<and> timers st' = timers st \<and>
         promises st' p0 = promises st p0 \<and>
         (\<forall>evt. matching cmd0 evt \<longrightarrow> promises st p0 = None \<longrightarrow>
            onResult (onCmdResult evt st') = None \<and>
            promises (onCmdResult evt st') p0 =
              Some (if status evt = 0 then Resolved evt else Rejected (HciError (status evt))))"
proof -
  have fresh: "promises st (created st) = None"
    using inv by (simp add: slot_inv_def)
  have "p0 \<in> pending_ids st"
    using slot by (simp add: pending_ids_def)
  then have less: "p0 < created st"
    using inv by (auto simp: slot_inv_def)
  have eq: "st' = settle (created st) (Rejected (ParserError Busy)) (st\<lparr> created := created st + 1 \<rparr>)"
    unfolding st'_def using slot by (rule busy_submit)
  have busy: "promises st' (created st) = Some (Rejected (ParserError Busy))"
    using fresh by (simp add: eq settle_promises)
  have io: "sent st' = sent st" "timers st' = timers st"
    by (simp_all add: eq)
  have slot': "onResult st' = Some (cmd0, p0)"
    using slot by (simp add: eq)
  have same: "promises st' p0 = promises st p0"
    using less by (simp add: eq settle_promises)
  have later: "onResult (onCmdResult evt st') = None \<and>
        promises (onCmdResult evt st') p0 =
          Some (if status evt = 0 then Resolved evt else Rejected (HciError (status evt)))"
    if "matching cmd0 evt" and "promises st p0 = None" for evt
    using that same by (simp add: onCmdResult_pending [OF slot'] classify_promises)
  show ?thesis
    using busy io slot' same later by blast
qed

text \<open>
  C1: after every sequence of submissions, deliveries and timeouts at most one call is
  unsettled. A command submitted while the slot is occupied is rejected with \<open>Busy\<close>
  in the same step, \<open>send\<close> is not called for it, slot and timer stay as they were,
  and the pending call still settles on its matching completion.
\<close>

theorem single_pending_command:
  "card (outstanding (run junk inputs)) \<le> 1 \<and>
   (\<forall>cmd0 p0. onResult (run junk inputs) = Some (cmd0, p0) \<longrightarrow>
      (let st = run junk inputs; st' = sendWaitResult junk cmd st
       in promises st' (created st) = Some (Rejected (ParserError Busy)) \<and>
          sent st' = sent st \<and> onResult st' = Some (cmd0, p0) \<and> timers st' = timers st \<and>
          promises st' p0 = promises st p0 \<and>
          (\<forall>evt. matching cmd0 evt \<longrightarrow> promises st p0 = None \<longrightarrow>
             onResult (onCmdResult evt st') = None \<and>
             promises (onCmdResult evt st') p0 =
               Some (if status evt = 0 then Resolved evt else Rejected (HciError (status evt))))))"
proof -
  have inv: "slot_inv (run junk inputs)"
    by (rule slot_inv_run)
  have one: "card (outstanding (run junk inputs)) \<le> 1"
    using inv by (rule card_outstanding)
  show ?thesis
    unfolding Let_def
    using one busy_effect [OF inv, of _ _ junk cmd]
    by blast
qed

lemma run_single: "run junk [i] = step junk init i"
  by (simp add: run_def)

theorem single_pending_command_witness:
  "(let st = run (\<lambda>_. 0) [Submit \<lparr> opcode = 0x0C03, connHandle = None, payload = None \<rparr>];
        st' = sendWaitResult (\<lambda>_. 0) \<lparr> opcode = 0x1009, connHandle = None, payload = None \<rparr> st;
        evt = \<lparr> numHciPackets = 1, evt_opcode = 0x0C03, status = 0, returnParameters = Some [] \<rparr>
    in onResult st = Some (\<lparr> opcode = 0x0C03, connHandle = None, payload = None \<rparr>, 0) \<and>
       sent st = [(HciCommand, [0x03, 0x0C, 0x00])] \<and>
       promises st' 1 = Some (Rejected (ParserError Busy)) \<and>
       sent st' = sent st \<and>
       promises (onCmdResult evt st') 0 = Some (Resolved evt) \<and>
       onResult (onCmdResult evt st') = None)"
proof -
  let ?reset = "\<lparr> opcode = 0x0C03, connHandle = None, payload = None \<rparr>"
  let ?st = "run (\<lambda>_. 0) [Submit ?reset]"
  have st: "?st = \<lparr> onResult = Some (?reset, 0), timers = {0}, promises = (\<lambda>_. None),
                     created = 1, sent = [(HciCommand, [0x03, 0x0C, 0x00])] \<rparr>"
    by (simp add: run_single sendWaitResult_def init_def Let_def buildCommand_ok)
  show ?thesis
    using single_pending_command [of "\<lambda>_. 0" "[Submit ?reset]"
          "\<lparr> opcode = 0x1009, connHandle = None, payload = None \<rparr>"]
    by (simp add: st Let_def matching_def)
qed

text \<open>
  C4: a matching completion with status \<open>0x00\<close> resolves the pending call with the
  event (status, opcode and return parameters); one with any other status rejects it with
  the controller error of that status; either way the slot is cleared.
\<close>

theorem status_classification:
  assumes "onResult st = Some (cmd, p)" and "promises st p = None" and "matching cmd evt"
  shows "onResult (onCmdResult evt st) = None \<and>
         (status evt = 0 \<longrightarrow> promises (onCmdResult evt st) p = Some (Resolved evt)) \<and>
         (status evt \<noteq> 0 \<longrightarrow>
            promises (onCmdResult evt st) p = Some (Rejected (HciError (status evt))))"
  using assms by (simp add: onCmdResult_pending classify_promises)

theorem status_classification_witness:
  "(let st = \<lparr> onResult = Some (\<lparr> opcode = 0x2008, connHandle = None, payload = Some [0] \<rparr>, 0),
               timers = {0}, promises = (\<lambda>_. None), created = 1,
               sent = [(HciCommand, [0x08, 0x20, 0x01, 0x00])] \<rparr>;
        ok = \<lparr> numHciPackets = 1, evt_opcode = 0x2008, status = 0x00, returnParameters = Some [] \<rparr>;
        bad = \<lparr> numHciPackets = 1, evt_opcode = 0x2008, status = 0x12, returnParameters = Some [] \<rparr>
    in promises (onCmdResult ok st) 0 = Some (Resolved ok) \<and>
       onResult (onCmdResult ok st) = None \<and>
       promises (onCmdResult bad st) 0 = Some (Rejected (HciError 0x12)) \<and>
       onResult (onCmdResult bad st) = None)"
  using
    status_classification [of
      "\<lparr> onResult = Some (\<lparr> opcode = 0x2008, connHandle = None, payload = Some [0] \<rparr>, 0),
         timers = {0}, promises = (\<lambda>_. None), created = 1,
         sent = [(HciCommand, [0x08, 0x20, 0x01, 0x00])] \<rparr>"
      "\<lparr> opcode = 0x2008, connHandle = None, payload = Some [0] \<rparr>" 0
      "\<lparr> numHciPackets = 1, evt_opcode = 0x2008, status = 0x00, returnParameters = Some [] \<rparr>"]
    status_classification [of
      "\<lparr> onResult = Some (\<lparr> opcode = 0x2008, connHandle = None, payload = Some [0] \<rparr>, 0),
         timers = {0}, promises = (\<lambda>_. None), created = 1,
         sent = [(HciCommand, [0x08, 0x20, 0x01, 0x00])] \<rparr>"
      "\<lparr> opcode = 0x2008, connHandle = None, payload = Some [0] \<rparr>" 0
      "\<lparr> numHciPackets = 1, evt_opcode = 0x2008, status = 0x12, returnParameters = Some [] \<rparr>"]
  by (simp add: Let_def matching_def)

text \<open>
  C5: a result whose opcode differs from the pending command's changes nothing: the call
  neither resolves nor rejects and the slot stays occupied.
\<close>

theorem mismatched_opcode_discarded:
  assumes "onResult st = Some (cmd, p)" and "evt_opcode evt \<noteq> opcode cmd"
  shows "onCmdResult evt st = st"
  using assms by (auto simp: onCmdResult_pending matching_def)

text \<open>
  C6: for a command with a registered connection handle, a completion with the same
  opcode whose return parameters begin with another 16-bit little-endian handle changes
  nothing; one that begins with the registered handle clears the slot and resolves or
  rejects the pending call by its status.
\<close>

theorem handle_demultiplexing:
  assumes "onResult st = Some (cmd, p)" and "connHandle cmd = Some h"
    and "evt_opcode evt = opcode cmd" and "returnParameters evt = Some rp" and "2 \<le> length rp"
  shows "(uint (rp ! 0) + 256 * uint (rp ! 1) \<noteq> h \<longrightarrow> onCmdResult evt st = st) \<and>
         (uint (rp ! 0) + 256 * uint (rp ! 1) = h \<longrightarrow>
            onResult (onCmdResult evt st) = None \<and>
            (promises st p = None \<longrightarrow>
               promises (onCmdResult evt st) p =
                 Some (if status evt = 0 then Resolved evt else Rejected (HciError (status evt)))))"
  using assms
  by (auto simp: onCmdResult_pending matching_def readUInt16LE_def classify_promises)

text \<open>
  C10: for a command with a registered connection handle, a result with the same opcode
  and no return parameters, or fewer than two bytes of them, changes nothing, whatever
  its status; the call stays pending, and a later matching completion or the timeout
  settles it.
\<close>

theorem short_return_parameters_ignored:
  assumes "onResult st = Some (cmd, p)" and "connHandle cmd = Some h"
    and "evt_opcode evt = opcode cmd"
    and "returnParameters evt = None \<or> (\<exists>rp. returnParameters evt = Some rp \<and> length rp < 2)"
  shows "onCmdResult evt st = st \<and>
         (\<forall>later. matching cmd later \<longrightarrow> promises st p = None \<longrightarrow>
            promises (onCmdResult later (onCmdResult evt st)) p =
              Some (if status later = 0 then Resolved later else Rejected (HciError (status later)))) \<and>
         (p \<in> timers st \<longrightarrow> promises st p = None \<longrightarrow>
            promises (timer_fires p (onCmdResult evt st)) p = Some (Rejected (ParserError Timeout)))"
proof -
  have "\<not> matching cmd evt"
    using assms by (auto simp: matching_def)
  then have same: "onCmdResult evt st = st"
    using assms(1) by (simp add: onCmdResult_pending)
  show ?thesis
    using assms(1)
    by (simp add: same onCmdResult_pending classify_promises timer_fires_def complete_promises
        makeParserError_def)
qed

section \<open>Dispatcher scenarios\<close>

lemma run_first_submit:
  "buildCommand junk cmd = Inr packet \<Longrightarrow>
     run junk [Submit cmd] =
       \<lparr> onResult = Some (cmd, 0), timers = {0}, promises = (\<lambda>_. None), created = 1,
         sent = [(HciCommand, packet)] \<rparr>"
  by (simp add: run_single sendWaitResult_def init_def Let_def)

lemma readChannelMap_packet:
  "buildCommand junk \<lparr> opcode = 0x2015, connHandle = Some 0x000A, payload = Some [0x0A, 0x00] \<rparr>
     = Inr [0x15, 0x20, 0x02, 0x0A, 0x00]"
  by (simp add: buildCommand_ok)

lemma reset_packet:
  "buildCommand junk \<lparr> opcode = 0x0C03, connHandle = None, payload = None \<rparr> = Inr [0x03, 0x0C, 0x00]"
  by (simp add: buildCommand_ok)

theorem mismatched_opcode_discarded_witness:
  "(let st = run (\<lambda>_. 0) [Submit \<lparr> opcode = 0x0C03, connHandle = None, payload = None \<rparr>];
        evt = \<lparr> numHciPackets = 1, evt_opcode = 0x1009, status = 0,
                returnParameters = Some [1, 2, 3, 4, 5, 6] \<rparr>
    in onResult st = Some (\<lparr> opcode = 0x0C03, connHandle = None, payload = None \<rparr>, 0) \<and>
       onCmdResult evt st = st \<and> promises (onCmdResult evt st) 0 = None)"
  using mismatched_opcode_discarded [of
      "run (\<lambda>_. 0) [Submit \<lparr> opcode = 0x0C03, connHandle = None, payload = None \<rparr>]"
      "\<lparr> opcode = 0x0C03, connHandle = None, payload = None \<rparr>" 0
      "\<lparr> numHciPackets = 1, evt_opcode = 0x1009, status = 0,
         returnParameters = Some [1, 2, 3, 4, 5, 6] \<rparr>"]
  by (simp add: Let_def run_first_submit [OF reset_packet])

theorem handle_demultiplexing_witness:
  "(let cmd = \<lparr> opcode = 0x2015, connHandle = Some 0x000A, payload = Some [0x0A, 0x00] \<rparr>;
        st = run (\<lambda>_. 0) [Submit cmd];
        other = \<lparr> numHciPackets = 1, evt_opcode = 0x2015, status = 0,
                  returnParameters = Some [0x0B, 0x00, 1, 2, 3, 4, 5] \<rparr>;
        mine = \<lparr> numHciPackets = 1, evt_opcode = 0x2015, status = 0,
                 returnParameters = Some [0x0A, 0x00, 1, 2, 3, 4, 5] \<rparr>
    in onResult st = Some (cmd, 0) \<and> onCmdResult other st = st \<and>
       onResult (onCmdResult mine st) = None \<and>
       promises (onCmdResult mine st) 0 = Some (Resolved mine))"
  using
    handle_demultiplexing [of
      "run (\<lambda>_. 0) [Submit \<lparr> opcode = 0x2015, connHandle = Some 0x000A, payload = Some [0x0A, 0x00] \<rparr>]"
      "\<lparr> opcode = 0x2015, connHandle = Some 0x000A, payload = Some [0x0A, 0x00] \<rparr>" 0 "0x000A"
      "\<lparr> numHciPackets = 1, evt_opcode = 0x2015, status = 0,
         returnParameters = Some [0x0B, 0x00, 1, 2, 3, 4, 5] \<rparr>" "[0x0B, 0x00, 1, 2, 3, 4, 5]"]
    handle_demultiplexing [of
      "run (\<lambda>_. 0) [Submit \<lparr> opcode = 0x2015, connHandle = Some 0x000A, payload = Some [0x0A, 0x00] \<rparr>]"
      "\<lparr> opcode = 0x2015, connHandle = Some 0x000A, payload = Some [0x0A, 0x00] \<rparr>" 0 "0x000A"
      "\<lparr> numHciPackets = 1, evt_opcode = 0x2015, status = 0,
         returnParameters = Some [0x0A, 0x00, 1, 2, 3, 4, 5] \<rparr>" "[0x0A, 0x00, 1, 2, 3, 4, 5]"]
  by (simp add: Let_def run_first_submit [OF readChannelMap_packet])

theorem short_return_parameters_ignored_witness:
  "(let cmd = \<lparr> opcode = 0x2015, connHandle = Some 0x000A, payload = Some [0x0A, 0x00] \<rparr>;
        st = run (\<lambda>_. 0) [Submit cmd];
        failed = \<lparr> numHciPackets = 1, evt_opcode = 0x2015, status = 0x02, returnParameters = None \<rparr>;
        short = \<lparr> numHciPackets = 1, evt_opcode = 0x2015, status = 0x02, returnParameters = Some [0x0A] \<rparr>
    in onResult st = Some (cmd, 0) \<and> onCmdResult failed st = st \<and> onCmdResult short st = st \<and>
       promises (onCmdResult failed st) 0 = None \<and>
       promises (timer_fires 0 (onCmdResult failed st)) 0 = Some (Rejected (ParserError Timeout)))"
proof -
  let ?cmd = "\<lparr> opcode = 0x2015, connHandle = Some 0x000A, payload = Some [0x0A, 0x00] \<rparr>"
  let ?st = "run (\<lambda>_. 0) [Submit ?cmd]"
  let ?failed = "\<lparr> numHciPackets = 1, evt_opcode = 0x2015, status = 0x02, returnParameters = None \<rparr>"
  let ?short = "\<lparr> numHciPackets = 1, evt_opcode = 0x2015, status = 0x02, returnParameters = Some [0x0A] \<rparr>"
  note st = run_first_submit [OF readChannelMap_packet, of "\<lambda>_. 0"]
  have slot: "onResult ?st = Some (?cmd, 0)" and armed: "0 \<in> timers ?st"
    and unsettled: "promises ?st 0 = None"
    by (simp_all add: st)
  have "onCmdResult ?failed ?st = ?st \<and>
         (\<forall>later. matching ?cmd later \<longrightarrow> promises ?st 0 = None \<longrightarrow>
            promises (onCmdResult later (onCmdResult ?failed ?st)) 0 =
              Some (if status later = 0 then Resolved later else Rejected (HciError (status later)))) \<and>
         (0 \<in> timers ?st \<longrightarrow> promises ?st 0 = None \<longrightarrow>
            promises (timer_fires 0 (onCmdResult ?failed ?st)) 0 = Some (Rejected (ParserError Timeout)))"
    by (rule short_return_parameters_ignored [OF slot, where h = "0x000A"]) simp_all
  with armed unsettled have failed: "onCmdResult ?failed ?st = ?st"
    and expire: "promises (timer_fires 0 (onCmdResult ?failed ?st)) 0
                   = Some (Rejected (ParserError Timeout))"
    by blast+
  have short: "onCmdResult ?short ?st = ?st"
    using short_return_parameters_ignored [OF slot, of "0x000A" ?short]
    by simp
  have still: "promises (onCmdResult ?failed ?st) 0 = None"
    using unsettled by (simp only: failed)
  show ?thesis
    unfolding Let_def using slot failed short still expire by blast
qed

section \<open>Rounding to binary64\<close>

lemma bitlen_powi_bounds:
  assumes "0 < (p::int)"
  shows "2 powi (bitlen p - 1) \<le> (of_int p :: rat)" and "(of_int p :: rat) < 2 powi bitlen p"
proof -
  have ge: "1 \<le> bitlen p"
    using assms by (metis bitlen_eq_zero_iff bitlen_nonneg add.commute add_0 linorder_not_less zle_add1_eq_le not_le order_le_less)
  from bitlen_bounds [OF assms]
  have a: "2 ^ nat (bitlen p - 1) \<le> p" and b: "p < 2 ^ nat (bitlen p)"
    by simp_all
  have "(of_int (2 ^ nat (bitlen p - 1)) :: rat) \<le> of_int p"
    using a by (simp only: of_int_le_iff)
  then show "2 powi (bitlen p - 1) \<le> (of_int p :: rat)"
    using ge by (simp add: power_int_def)
  have "(of_int p :: rat) < of_int (2 ^ nat (bitlen p))"
    using b by (simp only: of_int_less_iff)
  then show "(of_int p :: rat) < 2 powi bitlen p"
    using ge by (simp add: power_int_def)
qed


lemma binade_bounds_pos:
  assumes "0 < x"
  shows "2 powi binade x \<le> x \<and> x < 2 powi (binade x + 1)"
proof -
  obtain p q where pq: "quotient_of x = (p, q)"
    by (cases "quotient_of x")
  have q: "0 < q"
    using pq by (rule quotient_of_denom_pos)
  have x: "x = of_int p / of_int q"
    using pq by (rule quotient_of_div)
  have p: "0 < p"
    using assms q by (simp add: x zero_less_divide_iff)
  let ?e = "bitlen p - bitlen q"
  have qpos: "(0::rat) < of_int q"
    using q by simp
  have "x < 2 powi bitlen p / 2 powi (bitlen q - 1)"
  proof -
    have "x < 2 powi bitlen p / of_int q"
      using bitlen_powi_bounds(2) [OF p] qpos by (simp add: x divide_strict_right_mono)
    also have "\<dots> \<le> 2 powi bitlen p / 2 powi (bitlen q - 1)"
      using bitlen_powi_bounds(1) [OF q] by (simp add: frac_le)
    finally show ?thesis .
  qed
  then have upper: "x < 2 powi (?e + 1)"
    by (simp add: power_int_diff [symmetric] algebra_simps)
  have "(2::rat) powi (bitlen p - 1) / 2 powi bitlen q \<le> x"
  proof -
    have "(2::rat) powi (bitlen p - 1) / 2 powi bitlen q \<le> of_int p / 2 powi bitlen q"
      using bitlen_powi_bounds(1) [OF p] by (simp add: divide_right_mono)
    also have "\<dots> \<le> of_int p / of_int q"
      using bitlen_powi_bounds(2) [OF q] p qpos by (simp add: frac_le)
    finally show ?thesis
      by (simp add: x)
  qed
  then have lower: "2 powi (?e - 1) \<le> x"
    by (simp add: power_int_diff [symmetric] algebra_simps)
  have b: "binade x = (if 2 powi ?e \<le> x then ?e else ?e - 1)"
    using assms pq by (simp add: binade_def Let_def)
  show ?thesis
    using upper lower by (auto simp: b)
qed

lemma binade_abs [simp]: "binade \<bar>x\<bar> = binade x"
  by (simp add: binade_def)

lemma binade_bounds:
  assumes "x \<noteq> 0"
  shows "2 powi binade x \<le> \<bar>x\<bar>" and "\<bar>x\<bar> < 2 powi (binade x + 1)"
  using binade_bounds_pos [of "\<bar>x\<bar>"] assms by simp_all

lemma rne_error: "\<bar>of_int (rne y) - y\<bar> \<le> 1 / 2"
proof -
  have "of_int \<lfloor>y\<rfloor> \<le> y" and "y < of_int \<lfloor>y\<rfloor> + 1"
    by linarith+
  then show ?thesis
    by (auto simp: rne_def Let_def abs_le_iff)
qed

lemma rne_of_int [simp]: "rne (of_int n) = n"
  by (simp add: rne_def)

lemma fl_error:
  assumes "x \<noteq> 0"
  shows "\<bar>fl x - x\<bar> \<le> 2 powi (binade x - 53)"
proof -
  let ?u = "(2::rat) powi (binade x - 52)"
  have u: "0 < ?u"
    by simp
  have "fl x - x = (of_int (rne (x / ?u)) - x / ?u) * ?u"
    using assms u by (simp add: fl_def Let_def algebra_simps)
  then have "\<bar>fl x - x\<bar> = \<bar>of_int (rne (x / ?u)) - x / ?u\<bar> * ?u"
    using u by (simp add: abs_mult)
  also have "\<dots> \<le> 1 / 2 * ?u"
    using rne_error [of "x / ?u"] u by (simp add: mult_right_mono)
  also have "\<dots> = 2 powi (binade x - 53)"
    using power_int_add [of "2::rat" "binade x - 53" 1] by simp
  finally show ?thesis .
qed

lemma fl_rel_error: "\<bar>fl x - x\<bar> \<le> \<bar>x\<bar> / 2 ^ 53"
proof (cases "x = 0")
  case True
  then show ?thesis
    by (simp add: fl_def)
next
  case False
  have "\<bar>fl x - x\<bar> \<le> 2 powi (binade x - 53)"
    using False by (rule fl_error)
  also have "\<dots> = 2 powi binade x / 2 ^ 53"
    by (simp add: power_int_diff)
  also have "\<dots> \<le> \<bar>x\<bar> / 2 ^ 53"
    using binade_bounds(1) [OF False] by (simp add: divide_right_mono)
  finally show ?thesis .
qed

section \<open>Milliseconds and ticks\<close>

lemma fl_0625: "fl 0.625 = 5 / 8"
  by code_simp

lemma fl_5_8: "fl (5 / 8) = 5 / 8"
  using fl_0625 by simp

lemma Math_round_near:
  assumes "\<bar>y - of_int k\<bar> < 1 / 2"
  shows "Math_round y = k"
proof -
  have "of_int k \<le> y + 1 / 2" and "y + 1 / 2 < of_int k + 1"
    using assms by linarith+
  then show ?thesis
    unfolding Math_round_def by (simp add: floor_unique)
qed

text \<open>Rounding half up, exactly: the nearest tick count of a whole number of milliseconds.\<close>

lemma ticks_exact:
  fixes m :: int
  defines "k \<equiv> (16 * m + 5) div 10"
  shows "\<bar>of_int m / (5 / 8) - (of_int k :: rat)\<bar> \<le> 2 / 5"
proof -
  define r where "r = (16 * m + 5) mod 10"
  have eq: "16 * m + 5 = 10 * k + r"
    by (simp add: k_def r_def)
  have "r \<noteq> 0"
  proof
    assume "r = 0"
    then have "even (16 * m + 5)"
      using eq by simp
    then show False
      by simp
  qed
  moreover have "0 \<le> r" and "r < 10"
    by (simp_all add: r_def)
  ultimately have r: "1 \<le> r" "r \<le> 9"
    by simp_all
  have "(of_int (16 * m + 5) :: rat) = of_int (10 * k + r)"
    by (simp only: eq)
  then have "(of_int m :: rat) / (5 / 8) - of_int k = (of_int r - 5) / 10"
    by (simp add: field_simps)
  moreover have "\<bar>(of_int r - 5 :: rat) / 10\<bar> \<le> 2 / 5"
    using r by (simp add: abs_le_iff)
  ultimately show ?thesis
    by (simp only:)
qed

lemma spec_round_ticks:
  "\<lfloor>(of_int m :: rat) / 0.625 + 1 / 2\<rfloor> = (16 * m + 5) div 10"
proof -
  have "\<bar>(of_int m :: rat) / (5 / 8) - of_int ((16 * m + 5) div 10)\<bar> \<le> 2 / 5"
    by (rule ticks_exact)
  then have "\<bar>(of_int m :: rat) / (5 / 8) - of_int ((16 * m + 5) div 10)\<bar> < 1 / 2"
    by simp
  then have "Math_round ((of_int m :: rat) / (5 / 8)) = (16 * m + 5) div 10"
    by (rule Math_round_near)
  then show ?thesis
    by (simp add: Math_round_def)
qed

lemma msToHciValue_int:
  assumes "0 \<le> m" and "m \<le> 2 ^ 20"
  shows "msToHciValue (of_int m) = (16 * m + 5) div 10"
proof -
  let ?x = "(of_int m :: rat) / (5 / 8)"
  let ?k = "(16 * m + 5) div 10"
  have x: "\<bar>?x\<bar> \<le> 2 ^ 21"
  proof -
    have "(of_int m :: rat) \<le> of_int (2 ^ 20)"
      using assms(2) by (simp only: of_int_le_iff)
    moreover have "(0 :: rat) \<le> of_int m"
      using assms(1) by simp
    ultimately show ?thesis
      by (simp add: abs_le_iff)
  qed
  have "\<bar>fl ?x - ?x\<bar> \<le> \<bar>?x\<bar> / 2 ^ 53"
    by (rule fl_rel_error)
  also have "\<dots> \<le> 2 ^ 21 / 2 ^ 53"
    using x by (simp add: divide_right_mono)
  finally have err: "\<bar>fl ?x - ?x\<bar> \<le> 2 ^ 21 / 2 ^ 53" .
  have "\<bar>fl ?x - of_int ?k\<bar> \<le> \<bar>fl ?x - ?x\<bar> + \<bar>?x - of_int ?k\<bar>"
    by linarith
  also have "\<dots> \<le> 2 ^ 21 / 2 ^ 53 + 2 / 5"
    using err ticks_exact [of m] by simp
  also have "\<dots> < 1 / 2"
    by simp
  finally have "Math_round (fl ?x) = ?k"
    by (rule Math_round_near)
  then show ?thesis
    by (simp add: msToHciValue_def js_div_def fl_5_8)
qed

lemma hciValueToMs_rounds_back:
  assumes "0 \<le> m" and "m \<le> 2 ^ 20"
  shows "Math_round (hciValueToMs (msToHciValue (of_int m))) = m"
proof -
  let ?k = "(16 * m + 5) div 10"
  let ?y = "(of_int ?k :: rat) * (5 / 8)"
  have near: "\<bar>(of_int m :: rat) / (5 / 8) - of_int ?k\<bar> \<le> 2 / 5"
    by (rule ticks_exact)
  from near have "\<bar>(of_int m :: rat) * 8 / 5 - of_int ?k\<bar> \<le> 2 / 5"
    by simp
  then have dist: "\<bar>?y - of_int m\<bar> \<le> 1 / 4"
    by linarith
  have "\<bar>?y\<bar> \<le> \<bar>?y - of_int m\<bar> + \<bar>of_int m :: rat\<bar>"
    by linarith
  also have "\<dots> \<le> 1 / 4 + 2 ^ 20"
  proof -
    have "(of_int m :: rat) \<le> of_int (2 ^ 20)"
      using assms(2) by (simp only: of_int_le_iff)
    then have "\<bar>of_int m :: rat\<bar> \<le> 2 ^ 20"
      using assms(1) by simp
    with dist show ?thesis
      by simp
  qed
  finally have y: "\<bar>?y\<bar> \<le> 2 ^ 21"
    by simp
  have "\<bar>fl ?y - ?y\<bar> \<le> \<bar>?y\<bar> / 2 ^ 53"
    by (rule fl_rel_error)
  also have "\<dots> \<le> 2 ^ 21 / 2 ^ 53"
    using y by (simp add: divide_right_mono)
  finally have err: "\<bar>fl ?y - ?y\<bar> \<le> 2 ^ 21 / 2 ^ 53" .
  have "\<bar>fl ?y - of_int m\<bar> \<le> \<bar>fl ?y - ?y\<bar> + \<bar>?y - of_int m\<bar>"
    by linarith
  also have "\<dots> \<le> 2 ^ 21 / 2 ^ 53 + 1 / 4"
    using err dist by simp
  also have "\<dots> < 1 / 2"
    by simp
  finally have "Math_round (fl ?y) = m"
    by (rule Math_round_near)
  then show ?thesis
    using assms by (simp add: msToHciValue_int hciValueToMs_def js_mul_def fl_5_8)
qed

section \<open>Payload layouts\<close>

lemma LeAdvertisingDataOperation_value_range:
  "0 \<le> LeAdvertisingDataOperation_value x \<and> LeAdvertisingDataOperation_value x < 256"
  by (cases x) simp_all

lemma LeScanResponseDataOperation_value_range:
  "0 \<le> LeScanResponseDataOperation_value x \<and> LeScanResponseDataOperation_value x < 256"
  by (cases x) simp_all

lemma LeOwnAddressType_value_range:
  "0 \<le> LeOwnAddressType_value x \<and> LeOwnAddressType_value x < 256"
  by (cases x) simp_all

lemma LeScanningFilterPolicy_value_range:
  "0 \<le> LeScanningFilterPolicy_value x \<and> LeScanningFilterPolicy_value x < 256"
  by (cases x) simp_all

lemma LeScanType_value_range:
  "0 \<le> LeScanType_value x \<and> LeScanType_value x < 256"
  by (cases x) simp_all

lemma LeScanFilterDuplicates_value_range:
  "0 \<le> LeScanFilterDuplicates_value x \<and> LeScanFilterDuplicates_value x < 256"
  by (cases x) simp_all



lemma leSetExtendedAdvertisingData_payload:
  assumes "0 \<le> advertisingHandle" and "advertisingHandle \<le> 0xFF" and "length data \<le> 0xFF"
  shows "leSetExtendedAdvertisingData junk advertisingHandle operation fragment data =
           Inr ([word_of_int advertisingHandle,
                 word_of_int (LeAdvertisingDataOperation_value operation),
                 if fragment then 0 else 1,
                 word_of_nat (length data)] @ data)"
  using assms LeAdvertisingDataOperation_value_range [of operation]
  by (simp add: leSetExtendedAdvertisingData_def Let_def writeUIntLE_def store_def copy_def
      le_bytes_1)

lemma leSetExtendedScanResponseData_payload:
  assumes "0 \<le> advertisingHandle" and "advertisingHandle \<le> 0xFF" and "length data \<le> 0xFF"
  shows "leSetExtendedScanResponseData junk advertisingHandle operation fragment data =
           Inr ([word_of_int advertisingHandle,
                 word_of_int (LeScanResponseDataOperation_value operation),
                 if fragment then 0 else 1,
                 word_of_nat (length data)] @ data)"
  using assms LeScanResponseDataOperation_value_range [of operation]
  by (simp add: leSetExtendedScanResponseData_def Let_def writeUIntLE_def store_def copy_def
      le_bytes_1)


lemma phy_masks:
  "js_or 0 (js_shl 1 LeScanningPhy_Phy1M) = 1"
  "js_or 0 (js_shl 1 LeScanningPhy_PhyCoded) = 4"
  "js_or 1 (js_shl 1 LeScanningPhy_PhyCoded) = 5"
  by (simp_all add: js_or_def js_shl_def ToInt32_def LeScanningPhy_Phy1M_def
      LeScanningPhy_PhyCoded_def)

lemma scan_1M_only:
  assumes "fits_u16 p"
  shows "leSetExtendedScanParameters junk own policy (Some p) None =
           Inr (grouped_layout own policy (Some p) None)"
  using assms LeOwnAddressType_value_range [of own] LeScanningFilterPolicy_value_range [of policy]
    LeScanType_value_range [of "type p"]
  by (simp add: leSetExtendedScanParameters_def grouped_layout_def selected_phys_def phy_mask_def
      fits_u16_def Let_def phy_masks if_present_def writeUIntLE_def store_def le_bytes_1)

lemma scan_Coded_only:
  assumes "fits_u16 p"
  shows "leSetExtendedScanParameters junk own policy None (Some p) =
           Inr (grouped_layout own policy None (Some p))"
  using assms LeOwnAddressType_value_range [of own] LeScanningFilterPolicy_value_range [of policy]
    LeScanType_value_range [of "type p"]
  by (simp add: leSetExtendedScanParameters_def grouped_layout_def selected_phys_def phy_mask_def
      fits_u16_def Let_def phy_masks if_present_def writeUIntLE_def store_def le_bytes_1)

lemma scan_both:
  assumes "fits_u16 p" and "fits_u16 c"
  shows "leSetExtendedScanParameters junk own policy (Some p) (Some c) =
           Inr (grouped_layout own policy (Some p) (Some c))"
  using assms LeOwnAddressType_value_range [of own] LeScanningFilterPolicy_value_range [of policy]
    LeScanType_value_range [of "type p"] LeScanType_value_range [of "type c"]
  by (simp add: leSetExtendedScanParameters_def grouped_layout_def selected_phys_def phy_mask_def
      fits_u16_def Let_def phy_masks if_present_def writeUIntLE_def store_def le_bytes_1)


lemma scan_none:
  "leSetExtendedScanParameters junk own policy None None = Inl (HciError 0x12)"
  by (simp add: leSetExtendedScanParameters_def makeHciError_def InvalidCommandParameter_def)

lemma scan_1M_only_range:
  assumes "\<not> fits_u16 p"
  shows "leSetExtendedScanParameters junk own policy (Some p) None = Inl RangeError"
  using assms LeOwnAddressType_value_range [of own] LeScanningFilterPolicy_value_range [of policy]
    LeScanType_value_range [of "type p"]
  by (auto simp add: leSetExtendedScanParameters_def
      fits_u16_def Let_def phy_masks if_present_def writeUIntLE_def store_def le_bytes_1)

lemma scan_Coded_only_range:
  assumes "\<not> fits_u16 p"
  shows "leSetExtendedScanParameters junk own policy None (Some p) = Inl RangeError"
  using assms LeOwnAddressType_value_range [of own] LeScanningFilterPolicy_value_range [of policy]
    LeScanType_value_range [of "type p"]
  by (auto simp add: leSetExtendedScanParameters_def
      fits_u16_def Let_def phy_masks if_present_def writeUIntLE_def store_def le_bytes_1)

lemma scan_both_range:
  assumes "\<not> fits_u16 p \<or> \<not> fits_u16 c"
  shows "leSetExtendedScanParameters junk own policy (Some p) (Some c) = Inl RangeError"
  using assms LeOwnAddressType_value_range [of own] LeScanningFilterPolicy_value_range [of policy]
    LeScanType_value_range [of "type p"] LeScanType_value_range [of "type c"]
  by (auto simp add: leSetExtendedScanParameters_def
      fits_u16_def Let_def phy_masks if_present_def writeUIntLE_def store_def le_bytes_1)

lemma length_grouped_layout:
  "length (grouped_layout own policy Phy1M PhyCoded) = 3 + length (selected_phys Phy1M PhyCoded) * 5"
  by (simp add: grouped_layout_def selected_phys_def Let_def split: option.splits)

text \<open>
  C7: \<open>leSetExtendedScanParameters\<close> with \<open>N\<close> of the PHYs 1M and Coded selected
  (\<open>N\<close> is 1 or 2) builds exactly the payload of \<open>3 + N * 5\<close> bytes in the grouped
  layout: own address type, filter policy, PHY mask, then all scan types, all two-byte
  intervals, all two-byte windows, 1M before Coded in each group. It builds no other
  payload: with no PHY selected it throws the controller error \<open>0x12\<close>, and when a
  converted interval or window does not fit its two bytes the write throws.
\<close>

theorem extended_scan_parameters_grouped:
  "leSetExtendedScanParameters junk own policy Phy1M PhyCoded =
     (if selected_phys Phy1M PhyCoded = [] then Inl (HciError 0x12)
      else if \<forall>p \<in> set (selected_phys Phy1M PhyCoded). fits_u16 p
      then Inr (grouped_layout own policy Phy1M PhyCoded)
      else Inl RangeError)
   \<and> length (grouped_layout own policy Phy1M PhyCoded)
       = 3 + length (selected_phys Phy1M PhyCoded) * 5"
proof -
  have "leSetExtendedScanParameters junk own policy Phy1M PhyCoded =
     (if selected_phys Phy1M PhyCoded = [] then Inl (HciError 0x12)
      else if \<forall>p \<in> set (selected_phys Phy1M PhyCoded). fits_u16 p
      then Inr (grouped_layout own policy Phy1M PhyCoded)
      else Inl RangeError)"
  proof (cases Phy1M)
    case None
    then show ?thesis
      by (cases PhyCoded)
         (simp_all add: selected_phys_def scan_none scan_Coded_only scan_Coded_only_range)
  next
    case (Some p)
    then show ?thesis
      by (cases PhyCoded)
         (simp_all add: selected_phys_def scan_1M_only scan_1M_only_range scan_both
           scan_both_range)
  qed
  then show ?thesis
    by (simp only: length_grouped_layout simp_thms)
qed

theorem extended_scan_parameters_grouped_witness:
  "leSetExtendedScanParameters (\<lambda>_. 0xEE) PublicDeviceAddress All
     (Some \<lparr> type = Active, intervalMs = 100, windowMs = 50 \<rparr>)
     (Some \<lparr> type = Passive, intervalMs = 200, windowMs = 30 \<rparr>)
   = Inr [0x00, 0x00, 0x05, 0x01, 0x00, 0xA0, 0x00, 0x40, 0x01, 0x50, 0x00, 0x30, 0x00]
   \<and> leSetExtendedScanParameters (\<lambda>_. 0xEE) RandomDeviceAddress FromWhiteList None
     (Some \<lparr> type = Passive, intervalMs = 200, windowMs = 30 \<rparr>)
   = Inr [0x01, 0x01, 0x04, 0x00, 0x40, 0x01, 0x30, 0x00]"
proof -
  have ticks: "msToHciValue 100 = 160" "msToHciValue 50 = 80" "msToHciValue 200 = 320"
    "msToHciValue 30 = 48"
    using msToHciValue_int [of 100] msToHciValue_int [of 50] msToHciValue_int [of 200]
      msToHciValue_int [of 30]
    by simp_all
  show ?thesis
    using
      extended_scan_parameters_grouped [of "\<lambda>_. 0xEE" PublicDeviceAddress All
        "Some \<lparr> type = Active, intervalMs = 100, windowMs = 50 \<rparr>"
        "Some \<lparr> type = Passive, intervalMs = 200, windowMs = 30 \<rparr>"]
      extended_scan_parameters_grouped [of "\<lambda>_. 0xEE" RandomDeviceAddress FromWhiteList None
        "Some \<lparr> type = Passive, intervalMs = 200, windowMs = 30 \<rparr>"]
    by (simp add: selected_phys_def fits_u16_def grouped_layout_def phy_mask_def ticks le_bytes_2)
qed

lemma leSetExtendedAdvertisingData_throws:
  assumes "\<not> (0 \<le> advertisingHandle \<and> advertisingHandle \<le> 0xFF \<and> length data \<le> 0xFF)"
  shows "leSetExtendedAdvertisingData junk advertisingHandle operation fragment data = Inl RangeError"
  using assms LeAdvertisingDataOperation_value_range [of operation]
  by (auto simp: leSetExtendedAdvertisingData_def Let_def writeUIntLE_def store_def le_bytes_1)

lemma leSetExtendedScanResponseData_throws:
  assumes "\<not> (0 \<le> advertisingHandle \<and> advertisingHandle \<le> 0xFF \<and> length data \<le> 0xFF)"
  shows "leSetExtendedScanResponseData junk advertisingHandle operation fragment data = Inl RangeError"
  using assms LeScanResponseDataOperation_value_range [of operation]
  by (auto simp: leSetExtendedScanResponseData_def Let_def writeUIntLE_def store_def le_bytes_1)

text \<open>
  C9: the payloads of \<open>leSetExtendedAdvertisingData\<close> and
  \<open>leSetExtendedScanResponseData\<close> carry at offset 2 the inverse of \<open>fragment\<close>
  (\<open>false\<close> gives 1, \<open>true\<close> gives 0) and at offset 1 the value of the operation, the
  values being Intermediate 0, First 1, Last 2, Complete 3 and Unchanged 4. No payload is
  built when the handle or the data length does not fit its byte: the write throws.
\<close>

theorem fragment_preference_inverted:
  "leSetExtendedAdvertisingData junk advertisingHandle operation fragment data =
     (if 0 \<le> advertisingHandle \<and> advertisingHandle \<le> 0xFF \<and> length data \<le> 0xFF
      then Inr ([word_of_int advertisingHandle,
                 word_of_int (LeAdvertisingDataOperation_value operation),
                 if fragment then 0 else 1,
                 word_of_nat (length data)] @ data)
      else Inl RangeError)
   \<and> leSetExtendedScanResponseData junk advertisingHandle rsp_operation fragment data =
     (if 0 \<le> advertisingHandle \<and> advertisingHandle \<le> 0xFF \<and> length data \<le> 0xFF
      then Inr ([word_of_int advertisingHandle,
                 word_of_int (LeScanResponseDataOperation_value rsp_operation),
                 if fragment then 0 else 1,
                 word_of_nat (length data)] @ data)
      else Inl RangeError)
   \<and> map LeAdvertisingDataOperation_value
         [FragmentIntermediate, FragmentFirst, FragmentLast, Complete, Unchanged]
       = [0x00, 0x01, 0x02, 0x03, 0x04]
   \<and> map LeScanResponseDataOperation_value
         [ScanRspFragmentIntermediate, ScanRspFragmentFirst, ScanRspFragmentLast]
       = [0x00, 0x01, 0x02]"
proof (cases "0 \<le> advertisingHandle \<and> advertisingHandle \<le> 0xFF \<and> length data \<le> 0xFF")
  case True
  then show ?thesis
    by (simp add: leSetExtendedAdvertisingData_payload leSetExtendedScanResponseData_payload)
next
  case False
  note throws = leSetExtendedAdvertisingData_throws [OF False]
    leSetExtendedScanResponseData_throws [OF False]
  show ?thesis
    by (simp only: throws False if_False) simp
qed

theorem fragment_preference_inverted_witness:
  "leSetExtendedAdvertisingData (\<lambda>_. 0xEE) 1 Complete False [0x02, 0x01, 0x06]
     = Inr [0x01, 0x03, 0x01, 0x03, 0x02, 0x01, 0x06]
   \<and> leSetExtendedAdvertisingData (\<lambda>_. 0xEE) 1 Complete True [0x02, 0x01, 0x06]
     = Inr [0x01, 0x03, 0x00, 0x03, 0x02, 0x01, 0x06]
   \<and> leSetExtendedScanResponseData (\<lambda>_. 0xEE) 1 ScanRspFragmentLast False [0x02, 0x01, 0x06]
     = Inr [0x01, 0x02, 0x01, 0x03, 0x02, 0x01, 0x06]
   \<and> leSetExtendedScanResponseData (\<lambda>_. 0xEE) 1 ScanRspFragmentFirst True [0x02, 0x01, 0x06]
     = Inr [0x01, 0x01, 0x00, 0x03, 0x02, 0x01, 0x06]"
  using
    fragment_preference_inverted [where junk = "\<lambda>_. 0xEE" and advertisingHandle = 1
      and operation = Complete and fragment = False and data = "[0x02, 0x01, 0x06]"
      and rsp_operation = ScanRspFragmentLast]
    fragment_preference_inverted [where junk = "\<lambda>_. 0xEE" and advertisingHandle = 1
      and operation = Complete and fragment = True and data = "[0x02, 0x01, 0x06]"
      and rsp_operation = ScanRspFragmentFirst]
  by simp

section \<open>Time units\<close>

lemma fl_half_integer:
  assumes "\<bar>n\<bar> < 2 ^ 53"
  shows "fl (of_int n / 2) = of_int n / 2"
proof (cases "n = 0")
  case True
  then show ?thesis
    by (simp add: fl_def)
next
  case False
  let ?x = "(of_int n :: rat) / 2"
  let ?e = "binade ?x"
  have nz: "?x \<noteq> 0"
    using False by simp
  have "(of_int \<bar>n\<bar> :: rat) < of_int (2 ^ 53)"
    using assms by (simp only: of_int_less_iff)
  then have small: "\<bar>?x\<bar> < 2 powi 52"
    by simp
  have e: "?e < 52"
  proof (rule ccontr)
    assume "\<not> ?e < 52"
    then have "(2::rat) powi 52 \<le> 2 powi ?e"
      by (intro power_int_increasing) simp_all
    also have "\<dots> \<le> \<bar>?x\<bar>"
      using nz by (rule binade_bounds(1))
    finally show False
      using small by simp
  qed
  define k where "k = nat (51 - ?e)"
  have k: "int k = 51 - ?e"
    using e by (simp add: k_def)
  have "(2::rat) powi (?e - 52) * 2 ^ (k + 1) = 2 powi (?e - 52) * 2 powi (int (k + 1))"
    by (simp only: power_int_of_nat)
  also have "\<dots> = 2 powi (?e - 52 + int (k + 1))"
    by (rule power_int_add [symmetric]) simp
  also have "\<dots> = 1"
    using k by simp
  finally have inv: "(2::rat) powi (?e - 52) * 2 ^ (k + 1) = 1" .
  have upos: "(0::rat) < 2 powi (?e - 52)"
    by simp
  have "?x / 2 powi (?e - 52) = ?x * 2 ^ (k + 1)"
    using inv upos by (simp add: field_simps)
  also have "\<dots> = of_int (n * 2 ^ k)"
    by simp
  finally have q: "?x / 2 powi (?e - 52) = of_int (n * 2 ^ k)" .
  have "fl ?x = of_int (n * 2 ^ k) * 2 powi (?e - 52)"
    using nz by (simp only: fl_def Let_def q rne_of_int if_False)
  also have "\<dots> = ?x * (2 powi (?e - 52) * 2 ^ (k + 1))"
    by simp
  also have "\<dots> = ?x"
    by (simp only: inv mult_1_right)
  finally show ?thesis .
qed

lemma Math_round_error: "\<bar>of_int (Math_round y) - y\<bar> \<le> 1 / 2"
proof -
  have "of_int \<lfloor>y + 1 / 2\<rfloor> \<le> y + 1 / 2" and "y + 1 / 2 < of_int \<lfloor>y + 1 / 2\<rfloor> + 1"
    by linarith+
  then show ?thesis
    unfolding Math_round_def by linarith
qed

lemma round_div_close:
  "\<bar>of_int (Math_round (js_div x u)) - x / u\<bar> \<le> 1 / 2 + \<bar>x / u\<bar> / 2 ^ 53"
proof -
  have "\<bar>of_int (Math_round (fl (x / u))) - fl (x / u)\<bar> \<le> 1 / 2"
    by (rule Math_round_error)
  moreover have "\<bar>fl (x / u) - x / u\<bar> \<le> \<bar>x / u\<bar> / 2 ^ 53"
    by (rule fl_rel_error)
  ultimately show ?thesis
    unfolding js_div_def by linarith
qed

lemma duration_ticks_int:
  assumes "0 \<le> d" and "d \<le> 2 ^ 20"
  shows "Math_round (js_div (of_int d) 10) = (d + 5) div 10"
proof -
  let ?x = "(of_int d :: rat) / 10"
  define k where "k = (d + 5) div 10"
  define r where "r = (d + 5) mod 10"
  have eq: "d + 5 = 10 * k + r"
    by (simp add: k_def r_def)
  have r: "0 \<le> r" "r < 10"
    by (simp_all add: r_def)
  have kb: "0 \<le> k" "k \<le> 2 ^ 20"
    using assms by (simp_all add: k_def)
  have "(of_int (d + 5) :: rat) = of_int (10 * k + r)"
    by (simp only: eq)
  then have x: "?x = of_int k + (of_int r - 5) / 10"
    by (simp add: field_simps)
  have "Math_round (fl ?x) = k"
  proof (cases "r = 0")
    case True
    have half: "?x = of_int (2 * k - 1) / 2"
      using x True by (simp add: field_simps)
    have "\<bar>2 * k - 1\<bar> < 2 ^ 53"
      using kb by simp
    then have "fl (of_int (2 * k - 1) / 2) = of_int (2 * k - 1) / 2"
      by (rule fl_half_integer)
    then have "fl ?x = of_int (2 * k - 1) / 2"
      by (simp only: half)
    then have "fl ?x + 1 / 2 = of_int k"
      by simp
    then show ?thesis
      unfolding Math_round_def by (simp only: floor_of_int)
  next
    case False
    with r have "1 \<le> r" "r \<le> 9"
      by simp_all
    then have near: "\<bar>?x - of_int k\<bar> \<le> 2 / 5"
      by (simp add: x abs_le_iff)
    have "(of_int d :: rat) \<le> of_int (2 ^ 20)"
      using assms(2) by (simp only: of_int_le_iff)
    then have "\<bar>?x\<bar> \<le> 2 ^ 20"
      using assms(1) by simp
    then have "\<bar>?x\<bar> / 2 ^ 53 \<le> 2 ^ 20 / 2 ^ 53"
      by (simp add: divide_right_mono)
    with fl_rel_error [of ?x] have err: "\<bar>fl ?x - ?x\<bar> \<le> 2 ^ 20 / 2 ^ 53"
      by linarith
    have "\<bar>fl ?x - of_int k\<bar> \<le> \<bar>fl ?x - ?x\<bar> + \<bar>?x - of_int k\<bar>"
      by linarith
    also have "\<dots> \<le> 2 ^ 20 / 2 ^ 53 + 2 / 5"
      using err near by linarith
    also have "\<dots> < 1 / 2"
      by simp
    finally show ?thesis
      by (rule Math_round_near)
  qed
  then show ?thesis
    by (simp add: js_div_def k_def)
qed

lemma spec_round_duration:
  "\<lfloor>(of_int d :: rat) / 10 + 1 / 2\<rfloor> = (d + 5) div 10"
proof -
  have "(of_int d :: rat) / 10 + 1 / 2 = of_int (d + 5) / of_int 10"
    by simp
  then show ?thesis
    by (simp only: floor_divide_of_int_eq)
qed

lemma channel_bit:
  assumes "0 \<le> acc" and "acc \<le> 7"
  shows "0 \<le> js_or acc (js_shl 1 (LeAdvertisingChannelMap_value c)) \<and>
         js_or acc (js_shl 1 (LeAdvertisingChannelMap_value c)) \<le> 7"
proof -
  from assms have "acc = 0 \<or> acc = 1 \<or> acc = 2 \<or> acc = 3 \<or> acc = 4 \<or> acc = 5 \<or> acc = 6 \<or> acc = 7"
    by presburger
  then show ?thesis
    by (cases c) (auto simp: js_or_def js_shl_def ToInt32_def)
qed

lemma channel_bits:
  assumes "0 \<le> acc" and "acc \<le> 7"
  shows "0 \<le> foldl (\<lambda>bitfield bit. js_or bitfield (js_shl 1 bit)) acc
                 (map LeAdvertisingChannelMap_value cs) \<and>
         foldl (\<lambda>bitfield bit. js_or bitfield (js_shl 1 bit)) acc
                 (map LeAdvertisingChannelMap_value cs) \<le> 7"
  using assms
proof (induction cs arbitrary: acc)
  case Nil
  then show ?case
    by simp
next
  case (Cons c cs)
  from channel_bit [OF Cons.prems, of c] show ?case
    by (simp add: Cons.IH)
qed

lemma buildBitfield_channels:
  "0 \<le> buildBitfield (map LeAdvertisingChannelMap_value cs) \<and>
   buildBitfield (map LeAdvertisingChannelMap_value cs) \<le> 7"
  unfolding buildBitfield_def by (rule channel_bits) simp_all

lemma LeAdvertisingType_value_range:
  "0 \<le> LeAdvertisingType_value x \<and> LeAdvertisingType_value x < 256"
  by (cases x) simp_all

lemma LePeerAddressType_value_range:
  "0 \<le> LePeerAddressType_value x \<and> LePeerAddressType_value x < 256"
  by (cases x) simp_all

lemma LeAdvertisingFilterPolicy_value_range:
  "0 \<le> LeAdvertisingFilterPolicy_value x \<and> LeAdvertisingFilterPolicy_value x < 256"
  by (cases x) simp_all

lemma leSetAdvertisingParameters_payload:
  assumes "0 \<le> Math_round (js_div minMs (fl 0.625))"
    and "Math_round (js_div minMs (fl 0.625)) \<le> 0xFFFF"
    and "0 \<le> Math_round (js_div maxMs (fl 0.625))"
    and "Math_round (js_div maxMs (fl 0.625)) \<le> 0xFFFF"
    and "0 \<le> peerAddress" and "peerAddress < 2 ^ 48"
  shows "leSetAdvertisingParameters junk minMs maxMs advertisingType ownAddressType
           peerAddressType peerAddress channels policy =
         Inr (le_bytes 2 (Math_round (js_div minMs (fl 0.625)))
              @ le_bytes 2 (Math_round (js_div maxMs (fl 0.625)))
              @ [word_of_int (LeAdvertisingType_value advertisingType),
                 word_of_int (LeOwnAddressType_value ownAddressType),
                 word_of_int (LePeerAddressType_value peerAddressType)]
              @ le_bytes 6 peerAddress
              @ [word_of_int (buildBitfield (map LeAdvertisingChannelMap_value channels)),
                 word_of_int (LeAdvertisingFilterPolicy_value policy)])"
  using assms LeAdvertisingType_value_range [of advertisingType]
    LeOwnAddressType_value_range [of ownAddressType]
    LePeerAddressType_value_range [of peerAddressType]
    LeAdvertisingFilterPolicy_value_range [of policy]
    buildBitfield_channels [of channels]
  by (simp add: leSetAdvertisingParameters_def Let_def writeUIntLE_def store_def le_bytes_1)

lemma leSetExtendedScanEnable_payload:
  assumes "duration = Math_round (js_div (case durationMs of None \<Rightarrow> 0 | Some d \<Rightarrow> d) 10)"
    and "period = Math_round (js_div (case periodSec of None \<Rightarrow> 0 | Some p \<Rightarrow> p) (fl 1.28))"
    and "0 \<le> duration" and "duration \<le> 0xFFFF" and "0 \<le> period" and "period \<le> 0xFFFF"
  shows "leSetExtendedScanEnable junk enable filterDuplicates durationMs periodSec =
         Inr ([if enable then 1 else 0, word_of_int (LeScanFilterDuplicates_value filterDuplicates)]
              @ le_bytes 2 duration @ le_bytes 2 period)"
  using assms LeScanFilterDuplicates_value_range [of filterDuplicates]
  by (simp add: leSetExtendedScanEnable_def Let_def writeUIntLE_def store_def le_bytes_1)

lemma ticks_in_range:
  fixes m :: int
  assumes "20 \<le> m" and "m \<le> 10240"
  shows "32 \<le> (16 * m + 5) div 10" and "(16 * m + 5) div 10 \<le> 16384"
  using assms by linarith+

lemma interval_ticks:
  fixes m :: int
  assumes "20 \<le> m" and "m \<le> 10240"
  shows "Math_round (js_div (of_int m) (fl 0.625)) = \<lfloor>(of_int m :: rat) / 0.625 + 1 / 2\<rfloor>"
    and "0 \<le> \<lfloor>(of_int m :: rat) / 0.625 + 1 / 2\<rfloor>"
    and "\<lfloor>(of_int m :: rat) / 0.625 + 1 / 2\<rfloor> \<le> 0xFFFF"
proof -
  have "msToHciValue (of_int m) = (16 * m + 5) div 10"
    using assms by (intro msToHciValue_int) simp_all
  then show "Math_round (js_div (of_int m) (fl 0.625)) = \<lfloor>(of_int m :: rat) / 0.625 + 1 / 2\<rfloor>"
    by (simp only: spec_round_ticks msToHciValue_def)
  show "0 \<le> \<lfloor>(of_int m :: rat) / 0.625 + 1 / 2\<rfloor>"
    and "\<lfloor>(of_int m :: rat) / 0.625 + 1 / 2\<rfloor> \<le> 0xFFFF"
    using ticks_in_range [OF assms] by (simp_all only: spec_round_ticks)
qed

lemma advertising_intervals_encoded:
  fixes a b :: int
  assumes "20 \<le> a" and "a \<le> 10240" and "20 \<le> b" and "b \<le> 10240"
    and "0 \<le> peerAddress" and "peerAddress < 2 ^ 48"
  shows "leSetAdvertisingParameters junk (of_int a) (of_int b) advertisingType ownAddressType
           peerAddressType peerAddress channels policy =
         Inr (le_bytes 2 \<lfloor>(of_int a :: rat) / 0.625 + 1 / 2\<rfloor>
              @ le_bytes 2 \<lfloor>(of_int b :: rat) / 0.625 + 1 / 2\<rfloor>
              @ [word_of_int (LeAdvertisingType_value advertisingType),
                 word_of_int (LeOwnAddressType_value ownAddressType),
                 word_of_int (LePeerAddressType_value peerAddressType)]
              @ le_bytes 6 peerAddress
              @ [word_of_int (buildBitfield (map LeAdvertisingChannelMap_value channels)),
                 word_of_int (LeAdvertisingFilterPolicy_value policy)])"
proof -
  note ta = interval_ticks [OF assms(1,2)]
  note tb = interval_ticks [OF assms(3,4)]
  have "0 \<le> Math_round (js_div (of_int a) (fl 0.625))"
    and "Math_round (js_div (of_int a) (fl 0.625)) \<le> 0xFFFF"
    and "0 \<le> Math_round (js_div (of_int b) (fl 0.625))"
    and "Math_round (js_div (of_int b) (fl 0.625)) \<le> 0xFFFF"
    using ta(2,3) tb(2,3) by (simp_all only: ta(1) tb(1))
  from leSetAdvertisingParameters_payload [OF this assms(5,6)]
  show ?thesis
    by (simp only: ta(1) tb(1))
qed

lemma scan_duration_encoded:
  fixes d :: int
  assumes "0 \<le> d" and "d \<le> 655350"
    and "0 \<le> Math_round (js_div periodSec (fl 1.28))"
    and "Math_round (js_div periodSec (fl 1.28)) \<le> 0xFFFF"
  shows "leSetExtendedScanEnable junk enable filterDuplicates (Some (of_int d)) (Some periodSec) =
         Inr ([if enable then 1 else 0, word_of_int (LeScanFilterDuplicates_value filterDuplicates)]
              @ le_bytes 2 \<lfloor>(of_int d :: rat) / 10 + 1 / 2\<rfloor>
              @ le_bytes 2 (Math_round (js_div periodSec (fl 1.28))))"
proof -
  have dur: "Math_round (js_div (of_int d) 10) = \<lfloor>(of_int d :: rat) / 10 + 1 / 2\<rfloor>"
    using assms(1,2) by (simp only: spec_round_duration) (rule duration_ticks_int, simp_all)
  have "0 \<le> (d + 5) div 10" and "(d + 5) div 10 \<le> 0xFFFF"
    using assms(1,2) by linarith+
  then have rng: "0 \<le> \<lfloor>(of_int d :: rat) / 10 + 1 / 2\<rfloor>"
    "\<lfloor>(of_int d :: rat) / 10 + 1 / 2\<rfloor> \<le> 0xFFFF"
    by (simp_all only: spec_round_duration)
  show ?thesis
    by (rule leSetExtendedScanEnable_payload)
       (simp_all only: option.case dur rng assms(3,4))
qed


lemma ms_roundtrip_close:
  assumes "20 \<le> x" and "x \<le> 10240"
  shows "32 \<le> msToHciValue x" and "msToHciValue x \<le> 16384"
    and "\<bar>hciValueToMs (msToHciValue x) - x\<bar> \<le> 5 / 16 + 1 / 2 ^ 38"
proof -
  define q where "q = x / (5 / 8)"
  define k where "k = Math_round (fl q)"
  have q: "32 \<le> q" "q \<le> 16384"
    using assms by (simp_all add: q_def)
  have kq: "msToHciValue x = k"
    by (simp add: msToHciValue_def js_div_def fl_5_8 k_def q_def)
  have "\<bar>fl q - q\<bar> \<le> \<bar>q\<bar> / 2 ^ 53"
    by (rule fl_rel_error)
  also have "\<dots> \<le> 2 ^ 14 / 2 ^ 53"
    using q by (simp add: divide_right_mono)
  finally have e1: "\<bar>fl q - q\<bar> \<le> 1 / 2 ^ 39"
    by simp
  have e2: "\<bar>of_int k - fl q\<bar> \<le> 1 / 2"
    unfolding k_def by (rule Math_round_error)
  have near: "\<bar>of_int k - q\<bar> \<le> 1 / 2 + 1 / 2 ^ 39"
    using e1 e2 by linarith
  from near have "\<bar>of_int k - q\<bar> \<le> 3 / 4"
    by (rule order_trans) simp
  then have "(31 :: rat) < of_int k" and "of_int k < (16385 :: rat)"
    using q by linarith+
  then have "(of_int 31 :: rat) < of_int k" and "(of_int k :: rat) < of_int 16385"
    by simp_all
  then have kb: "31 < k" "k < 16385"
    by (simp_all only: of_int_less_iff)
  then show "32 \<le> msToHciValue x" and "msToHciValue x \<le> 16384"
    by (simp_all add: kq)
  define z where "z = (of_int k :: rat) * (5 / 8)"
  have zx: "z - x = (of_int k - q) * (5 / 8)"
    by (simp add: z_def q_def)
  have "\<bar>z - x\<bar> = \<bar>of_int k - q\<bar> * (5 / 8)"
    by (simp only: zx abs_mult)
  then have d: "\<bar>z - x\<bar> \<le> (1 / 2 + 1 / 2 ^ 39) * (5 / 8)"
    using near by simp
  have zb: "\<bar>z\<bar> \<le> 2 ^ 14"
  proof -
    have "(0 :: rat) \<le> of_int k" and "(of_int k :: rat) \<le> 16385"
      using \<open>(31 :: rat) < of_int k\<close> \<open>of_int k < (16385 :: rat)\<close> by simp_all
    then show ?thesis
      by (simp add: z_def abs_le_iff)
  qed
  have "\<bar>fl z - z\<bar> \<le> \<bar>z\<bar> / 2 ^ 53"
    by (rule fl_rel_error)
  also have "\<dots> \<le> 2 ^ 14 / 2 ^ 53"
    using zb by (simp add: divide_right_mono)
  finally have e3: "\<bar>fl z - z\<bar> \<le> 1 / 2 ^ 39"
    by simp
  have "\<bar>fl z - x\<bar> \<le> \<bar>fl z - z\<bar> + \<bar>z - x\<bar>"
    by linarith
  also have "\<dots> \<le> 1 / 2 ^ 39 + (1 / 2 + 1 / 2 ^ 39) * (5 / 8)"
    using e3 d by linarith
  also have "\<dots> \<le> 5 / 16 + 1 / 2 ^ 38"
    by simp
  finally show "\<bar>hciValueToMs (msToHciValue x) - x\<bar> \<le> 5 / 16 + 1 / 2 ^ 38"
    by (simp add: kq hciValueToMs_def js_mul_def fl_5_8 z_def)
qed

lemma le_bytes_6:
  "le_bytes 6 v = [word_of_int v, word_of_int (v div 256), word_of_int (v div 65536),
                   word_of_int (v div 16777216), word_of_int (v div 4294967296),
                   word_of_int (v div 1099511627776)]"
proof -
  have "[0..<6] = [0, 1, 2, 3, 4, 5]"
    by (simp add: upt_rec)
  then show ?thesis
    by (simp add: le_bytes_def)
qed

text \<open>
  C8: the conversions are \<open>round(ms / unit)\<close>. For every whole number of milliseconds
  \<open>m\<close> from 20 to 10240, \<open>msToHciValue\<close> returns \<open>m / 0.625\<close> rounded half up,
  multiplying the ticks by 0.625 rounds back to \<open>m\<close>, and the ticks fit two bytes; the
  boundaries give \<open>0x0020\<close> and \<open>0x4000\<close>. For every number \<open>x\<close> in that range, whole
  or not, the ticks lie between these two and come back within half a tick of \<open>x\<close>.
  \<open>leSetAdvertisingParameters\<close> writes both advertising intervals so rounded,
  \<open>leSetExtendedScanEnable\<close> writes the duration as \<open>ms / 10\<close> rounded half up and the
  period as the seconds divided by the double \<open>1.28\<close>, rounded, which is within a half
  (and the rounding of the division) of the exact quotient.
\<close>

theorem time_unit_conversions:
  fixes m a b d :: int
  shows
    "(20 \<le> m \<and> m \<le> 10240 \<longrightarrow>
        msToHciValue (of_int m) = \<lfloor>(of_int m :: rat) / 0.625 + 1 / 2\<rfloor> \<and>
        Math_round (hciValueToMs (msToHciValue (of_int m))) = m \<and>
        0 \<le> msToHciValue (of_int m) \<and> msToHciValue (of_int m) \<le> 0xFFFF)
     \<and> (20 \<le> x \<and> x \<le> 10240 \<longrightarrow>
          0x0020 \<le> msToHciValue x \<and> msToHciValue x \<le> 0x4000 \<and>
          \<bar>hciValueToMs (msToHciValue x) - x\<bar> \<le> 5 / 16 + 1 / 2 ^ 38)
     \<and> msToHciValue 20 = 0x0020 \<and> msToHciValue 10240 = 0x4000
     \<and> (20 \<le> a \<and> a \<le> 10240 \<and> 20 \<le> b \<and> b \<le> 10240 \<and>
          0 \<le> peerAddress \<and> peerAddress < 2 ^ 48 \<longrightarrow>
          leSetAdvertisingParameters junk (of_int a) (of_int b) advertisingType ownAddressType
              peerAddressType peerAddress channels policy =
            Inr (le_bytes 2 \<lfloor>(of_int a :: rat) / 0.625 + 1 / 2\<rfloor>
                 @ le_bytes 2 \<lfloor>(of_int b :: rat) / 0.625 + 1 / 2\<rfloor>
                 @ [word_of_int (LeAdvertisingType_value advertisingType),
                    word_of_int (LeOwnAddressType_value ownAddressType),
                    word_of_int (LePeerAddressType_value peerAddressType)]
                 @ le_bytes 6 peerAddress
                 @ [word_of_int (buildBitfield (map LeAdvertisingChannelMap_value channels)),
                    word_of_int (LeAdvertisingFilterPolicy_value policy)]))
     \<and> (0 \<le> d \<and> d \<le> 655350 \<and>
          0 \<le> Math_round (js_div periodSec (fl 1.28)) \<and>
          Math_round (js_div periodSec (fl 1.28)) \<le> 0xFFFF \<longrightarrow>
          leSetExtendedScanEnable junk enable filterDuplicates (Some (of_int d)) (Some periodSec) =
            Inr ([if enable then 1 else 0,
                  word_of_int (LeScanFilterDuplicates_value filterDuplicates)]
                 @ le_bytes 2 \<lfloor>(of_int d :: rat) / 10 + 1 / 2\<rfloor>
                 @ le_bytes 2 (Math_round (js_div periodSec (fl 1.28)))))
     \<and> \<bar>of_int (Math_round (js_div periodSec (fl 1.28))) - periodSec / fl 1.28\<bar>
          \<le> 1 / 2 + \<bar>periodSec / fl 1.28\<bar> / 2 ^ 53
     \<and> \<bar>fl 1.28 - 1.28\<bar> \<le> 1.28 / 2 ^ 53"
proof -
  have ticks: "msToHciValue (of_int m) = \<lfloor>(of_int m :: rat) / 0.625 + 1 / 2\<rfloor> \<and>
        Math_round (hciValueToMs (msToHciValue (of_int m))) = m \<and>
        0 \<le> msToHciValue (of_int m) \<and> msToHciValue (of_int m) \<le> 0xFFFF"
    if "20 \<le> m" and "m \<le> 10240"
  proof -
    have "msToHciValue (of_int m) = \<lfloor>(of_int m :: rat) / 0.625 + 1 / 2\<rfloor>"
      using interval_ticks(1) [OF that] by (simp only: msToHciValue_def)
    moreover have "Math_round (hciValueToMs (msToHciValue (of_int m))) = m"
      using that by (intro hciValueToMs_rounds_back) simp_all
    ultimately show ?thesis
      using interval_ticks(2,3) [OF that] by (simp only: simp_thms)
  qed
  have real: "0x0020 \<le> msToHciValue x \<and> msToHciValue x \<le> 0x4000 \<and>
          \<bar>hciValueToMs (msToHciValue x) - x\<bar> \<le> 5 / 16 + 1 / 2 ^ 38"
    if "20 \<le> x \<and> x \<le> 10240"
    using that ms_roundtrip_close [of x] by simp
  have lo: "msToHciValue 20 = 0x0020" and hi: "msToHciValue 10240 = 0x4000"
    using msToHciValue_int [of 20] msToHciValue_int [of 10240] by simp_all
  have adv: "leSetAdvertisingParameters junk (of_int a) (of_int b) advertisingType ownAddressType
              peerAddressType peerAddress channels policy =
            Inr (le_bytes 2 \<lfloor>(of_int a :: rat) / 0.625 + 1 / 2\<rfloor>
                 @ le_bytes 2 \<lfloor>(of_int b :: rat) / 0.625 + 1 / 2\<rfloor>
                 @ [word_of_int (LeAdvertisingType_value advertisingType),
                    word_of_int (LeOwnAddressType_value ownAddressType),
                    word_of_int (LePeerAddressType_value peerAddressType)]
                 @ le_bytes 6 peerAddress
                 @ [word_of_int (buildBitfield (map LeAdvertisingChannelMap_value channels)),
                    word_of_int (LeAdvertisingFilterPolicy_value policy)])"
    if "20 \<le> a \<and> a \<le> 10240 \<and> 20 \<le> b \<and> b \<le> 10240 \<and>
          0 \<le> peerAddress \<and> peerAddress < 2 ^ 48"
    using that by (intro advertising_intervals_encoded) simp_all
  have scan: "leSetExtendedScanEnable junk enable filterDuplicates (Some (of_int d)) (Some periodSec) =
            Inr ([if enable then 1 else 0,
                  word_of_int (LeScanFilterDuplicates_value filterDuplicates)]
                 @ le_bytes 2 \<lfloor>(of_int d :: rat) / 10 + 1 / 2\<rfloor>
                 @ le_bytes 2 (Math_round (js_div periodSec (fl 1.28))))"
    if "0 \<le> d \<and> d \<le> 655350 \<and>
          0 \<le> Math_round (js_div periodSec (fl 1.28)) \<and>
          Math_round (js_div periodSec (fl 1.28)) \<le> 0xFFFF"
    using that by (intro scan_duration_encoded) simp_all
  have close: "\<bar>of_int (Math_round (js_div periodSec (fl 1.28))) - periodSec / fl 1.28\<bar>
          \<le> 1 / 2 + \<bar>periodSec / fl 1.28\<bar> / 2 ^ 53"
    by (rule round_div_close)
  have lit: "\<bar>fl 1.28 - 1.28\<bar> \<le> 1.28 / 2 ^ 53"
    using fl_rel_error [of "1.28"] by simp
  show ?thesis
    using ticks real lo hi adv scan close lit by blast
qed

theorem time_unit_conversions_witness:
  "msToHciValue 20 = 32 \<and> Math_round (hciValueToMs (msToHciValue 20)) = 20
   \<and> msToHciValue 10240 = 16384 \<and> Math_round (hciValueToMs (msToHciValue 10240)) = 10240
   \<and> leSetAdvertisingParameters (\<lambda>_. 0xEE) 20 10240 Undirected PublicDeviceAddress
         PeerRandomDeviceAddress 0x112233445566 [Channel37, Channel39] Any
       = Inr [0x20, 0x00, 0x00, 0x40, 0x00, 0x00, 0x01,
              0x66, 0x55, 0x44, 0x33, 0x22, 0x11, 0x05, 0x00]
   \<and> leSetExtendedScanEnable (\<lambda>_. 0xEE) True Enabled (Some 1005) (Some (fl 2.56))
       = Inr [0x01, 0x01, 0x65, 0x00, 0x02, 0x00]"
proof -
  have bits: "buildBitfield [0, 2] = 5"
    by (simp add: buildBitfield_def js_or_def js_shl_def ToInt32_def)
  have r: "\<lfloor>(65 :: rat) / 2\<rfloor> = 32" "\<lfloor>(32769 :: rat) / 2\<rfloor> = 16384"
    by (rule floor_unique; simp)+
  have p: "Math_round (js_div (fl (64 / 25)) (fl (32 / 25))) = 2"
    by code_simp
  note lo = time_unit_conversions [where m = 20 and x = "61 / 2" and a = 20 and b = 10240
        and peerAddress = "0x112233445566" and junk = "\<lambda>_. 0xEE"
        and advertisingType = Undirected and ownAddressType = PublicDeviceAddress
        and peerAddressType = PeerRandomDeviceAddress and channels = "[Channel37, Channel39]"
        and policy = Any and d = 1005 and periodSec = "fl 2.56" and enable = True
        and filterDuplicates = Enabled]
  note hi = time_unit_conversions [where m = 10240 and x = "61 / 2" and a = 20 and b = 10240
        and peerAddress = "0x112233445566" and junk = "\<lambda>_. 0xEE"
        and advertisingType = Undirected and ownAddressType = PublicDeviceAddress
        and peerAddressType = PeerRandomDeviceAddress and channels = "[Channel37, Channel39]"
        and policy = Any and d = 1005 and periodSec = "fl 2.56" and enable = True
        and filterDuplicates = Enabled]
  have "msToHciValue 20 = 32" and "msToHciValue 10240 = 16384"
    using lo by (simp_all add: r)
  moreover have "Math_round (hciValueToMs (msToHciValue 20)) = 20"
    using lo by (auto simp: r)
  moreover have "Math_round (hciValueToMs (msToHciValue 10240)) = 10240"
    using hi by (auto simp: r)
  moreover have "leSetAdvertisingParameters (\<lambda>_. 0xEE) 20 10240 Undirected PublicDeviceAddress
         PeerRandomDeviceAddress 0x112233445566 [Channel37, Channel39] Any
       = Inr [0x20, 0x00, 0x00, 0x40, 0x00, 0x00, 0x01,
              0x66, 0x55, 0x44, 0x33, 0x22, 0x11, 0x05, 0x00]"
    using lo by (simp add: r bits le_bytes_2 le_bytes_6)
  moreover have "leSetExtendedScanEnable (\<lambda>_. 0xEE) True Enabled (Some 1005) (Some (fl 2.56))
       = Inr [0x01, 0x01, 0x65, 0x00, 0x02, 0x00]"
    using lo by (simp add: p le_bytes_2)
  ultimately show ?thesis
    by (simp only: simp_thms)
qed

end
